theory Spec2Isabelle
  imports Complex_Main "HOL-Library.Char_ord" "HOL-Library.List_Lexorder"
    "HOL-Library.Product_Lexorder" "HOL-Library.Log_Nat" "HOL-Library.Multiset"
begin

section \<open>Data model\<close>

text \<open>
  A spreadsheet cell as \<open>pd.read_excel\<close> delivers it: text, or missing (pandas' NaN,
  here \<open>None\<close>). The transaction extracts hold text in every column the report reads.
\<close>

type_synonym cell = "string option"

text \<open>The table \<open>pd.read_excel(file_name)\<close> returns: a header row and the data rows.\<close>

record sheet =
  header :: "string list"
  body :: "cell list list"

text \<open>One row of a frame after \<open>filter_file\<close> has selected the six columns.\<close>

record txn =
  ENDTOENDID :: cell
  DB_PARTIC_NAME :: cell
  CR_PARTIC_NAME :: cell
  TR_STATUS_NAME :: cell
  BANK_OP_CODE :: cell
  REJECT_MOTIVE_DESCRITION :: cell

text \<open>
  The exceptions the pipeline can raise. \<open>KeyError\<close> carries the labels pandas did not
  find, which is what its message lists.
\<close>

datatype error =
    FileNotFoundError string
  | KeyError "string list"
  | ValueError string
  | AttributeError string

section \<open>Record filter and corpus builder\<close>

definition required_columns :: "string list" where
  "required_columns =
     [''ENDTOENDID'', ''DB_PARTIC_NAME'', ''CR_PARTIC_NAME'', ''TR_STATUS_NAME'',
      ''BANK_OP_CODE'', ''REJECT_MOTIVE_DESCRITION'']"

text \<open>The cell of a data row under a header label; a row that ends early has no cell there.\<close>

definition lookup_cell :: "string list \<Rightarrow> cell list \<Rightarrow> string \<Rightarrow> cell" where
  "lookup_cell hdr row c = (case map_of (zip hdr row) c of Some v \<Rightarrow> v | None \<Rightarrow> None)"

definition project :: "string list \<Rightarrow> cell list \<Rightarrow> txn" where
  "project hdr row =
     \<lparr> ENDTOENDID = lookup_cell hdr row ''ENDTOENDID'',
       DB_PARTIC_NAME = lookup_cell hdr row ''DB_PARTIC_NAME'',
       CR_PARTIC_NAME = lookup_cell hdr row ''CR_PARTIC_NAME'',
       TR_STATUS_NAME = lookup_cell hdr row ''TR_STATUS_NAME'',
       BANK_OP_CODE = lookup_cell hdr row ''BANK_OP_CODE'',
       REJECT_MOTIVE_DESCRITION = lookup_cell hdr row ''REJECT_MOTIVE_DESCRITION'' \<rparr>"

text \<open>
  \<open>pivot_df.loc[:, [...]]\<close>: pandas raises \<open>KeyError\<close> listing the requested labels that
  are not columns of the frame; otherwise the frame is projected to the six columns.
\<close>

definition missing_columns :: "sheet \<Rightarrow> string list" where
  "missing_columns x = filter (\<lambda>c. c \<notin> set (header x)) required_columns"

definition keep_row :: "txn \<Rightarrow> bool" where
  "keep_row t \<longleftrightarrow> BANK_OP_CODE t \<noteq> Some ''CSDC'' \<and> BANK_OP_CODE t \<noteq> Some ''PMCT''"

text \<open>
  \<open>filter_file(file_name)\<close>. The file system is a map from paths to the tables stored
  there; \<open>pd.read_excel\<close> of a path that holds no file raises \<open>FileNotFoundError\<close>.
\<close>

definition filter_file :: "(string \<rightharpoonup> sheet) \<Rightarrow> string \<Rightarrow> error + txn list" where
  "filter_file fs file_name =
     (case fs file_name of
        None \<Rightarrow> Inl (FileNotFoundError file_name)
      | Some pivot_df \<Rightarrow>
          if missing_columns pivot_df \<noteq> [] then Inl (KeyError (missing_columns pivot_df))
          else Inr (filter keep_row (map (project (header pivot_df)) (body pivot_df))))"

text \<open>\<open>os.path.join\<close> of two components (POSIX).\<close>

definition join :: "string \<Rightarrow> string \<Rightarrow> string" where
  "join a b =
     (if b \<noteq> [] \<and> hd b = CHR ''/'' then b
      else if a = [] \<or> last a = CHR ''/'' then a @ b
      else a @ ''/'' @ b)"

text \<open>\<open>data.fillna("")\<close> on the six text columns.\<close>

definition fill_cell :: "cell \<Rightarrow> cell" where
  "fill_cell c = (case c of None \<Rightarrow> Some [] | Some s \<Rightarrow> Some s)"

definition fillna_empty :: "txn list \<Rightarrow> txn list" where
  "fillna_empty data =
     map (\<lambda>t. \<lparr> ENDTOENDID = fill_cell (ENDTOENDID t),
                DB_PARTIC_NAME = fill_cell (DB_PARTIC_NAME t),
                CR_PARTIC_NAME = fill_cell (CR_PARTIC_NAME t),
                TR_STATUS_NAME = fill_cell (TR_STATUS_NAME t),
                BANK_OP_CODE = fill_cell (BANK_OP_CODE t),
                REJECT_MOTIVE_DESCRITION = fill_cell (REJECT_MOTIVE_DESCRITION t) \<rparr>) data"

text \<open>
  The loop of \<open>merge_files\<close>: \<open>check_file_exists\<close> raises
  \<open>FileNotFoundError("Sheet Not Found! does not exist!")\<close>; an exception of
  \<open>filter_file\<close> is not caught; otherwise the filtered rows are appended and the
  missing values filled.
\<close>

fun merge_loop :: "(string \<rightharpoonup> sheet) \<Rightarrow> string \<Rightarrow> string list \<Rightarrow> txn list \<Rightarrow> error + txn list" where
  "merge_loop fs source_path [] data = Inr data"
| "merge_loop fs source_path (f # files) data =
     (let file_path = join source_path f in
      if fs file_path = None then Inl (FileNotFoundError ''Sheet Not Found! does not exist!'')
      else case filter_file fs file_path of
             Inl e \<Rightarrow> Inl e
           | Inr temp_df \<Rightarrow> merge_loop fs source_path files (fillna_empty (data @ temp_df)))"

definition merge_files :: "(string \<rightharpoonup> sheet) \<Rightarrow> string \<Rightarrow> string list \<Rightarrow> error + txn list" where
  "merge_files fs source_path files = merge_loop fs source_path files []"


text \<open>The labels an exception's message lists.\<close>

fun named_in_message :: "error \<Rightarrow> string list" where
  "named_in_message (FileNotFoundError s) = [s]"
| "named_in_message (KeyError ls) = ls"
| "named_in_message (ValueError s) = [s]"
| "named_in_message (AttributeError s) = [s]"

section \<open>Frames\<close>

text \<open>
  A value held in a column of dtype \<open>object\<close>: missing, text, or a number (the \<open>0\<close> that
  \<open>fillna(0)\<close> writes among the texts of a column).
\<close>

datatype val = NaN | Str string | Num int

text \<open>
  A column is of dtype \<open>object\<close> or numeric (\<open>int64\<close>, or \<open>float64\<close> where a count is
  missing: \<open>None\<close>). Every number the pipeline stores in a numeric column is a count or a
  sum of counts, which \<open>float64\<close> holds exactly below \<open>2^53\<close>; the model keeps them as
  integers. A frame is the list of its labelled columns, left to right; labels may repeat.
\<close>

datatype column = ObjectCol "val list" | NumericCol "int option list"

type_synonym 'l frame = "('l \<times> column) list"

definition labels :: "'l frame \<Rightarrow> 'l list" where
  "labels df = map fst df"

fun col_len :: "column \<Rightarrow> nat" where
  "col_len (ObjectCol vs) = length vs"
| "col_len (NumericCol ns) = length ns"

definition nrows :: "'l frame \<Rightarrow> nat" where
  "nrows df = (case df of [] \<Rightarrow> 0 | (l, c) # _ \<Rightarrow> col_len c)"

text \<open>\<open>df.fillna(0)\<close>.\<close>

fun fillna0_col :: "column \<Rightarrow> column" where
  "fillna0_col (ObjectCol vs) = ObjectCol (map (\<lambda>v. if v = NaN then Num 0 else v) vs)"
| "fillna0_col (NumericCol ns) = NumericCol (map (\<lambda>n. case n of None \<Rightarrow> Some 0 | Some k \<Rightarrow> Some k) ns)"

definition fillna0 :: "'l frame \<Rightarrow> 'l frame" where
  "fillna0 df = map (\<lambda>(l, c). (l, fillna0_col c)) df"

text \<open>
  \<open>df.loc[:, ls]\<close>: \<open>KeyError\<close> lists the labels of \<open>ls\<close> that the frame does not have;
  otherwise the columns are taken in the order of \<open>ls\<close>.
\<close>

definition loc_columns :: "string frame \<Rightarrow> string list \<Rightarrow> error + string frame" where
  "loc_columns df ls =
     (let missing = filter (\<lambda>l. l \<notin> set (labels df)) ls in
      if missing \<noteq> [] then Inl (KeyError missing)
      else Inr (concat (map (\<lambda>l. filter (\<lambda>(l', c). l' = l) df) ls)))"

text \<open>
  \<open>df[label].astype(int)\<close> written back: a numeric column without missing values keeps
  its numbers; pandas refuses to convert a missing value or a text.
\<close>

fun astype_int_col :: "column \<Rightarrow> error + column" where
  "astype_int_col (NumericCol ns) =
     (if None \<in> set ns then Inl (ValueError ''Cannot convert non-finite values (NA or inf) to integer'')
      else Inr (NumericCol ns))"
| "astype_int_col (ObjectCol vs) =
     (if list_all (\<lambda>v. case v of Num k \<Rightarrow> True | _ \<Rightarrow> False) vs then Inr (NumericCol (map (\<lambda>v. case v of Num k \<Rightarrow> Some k | _ \<Rightarrow> None) vs))
      else Inl (ValueError ''invalid literal for int()''))"

text \<open>\<open>df.rename(columns=m)\<close>: every label that is a key of \<open>m\<close> is replaced.\<close>

definition rename :: "(string \<times> string) list \<Rightarrow> string frame \<Rightarrow> string frame" where
  "rename m df = map (\<lambda>(l, c). (case map_of m l of Some l' \<Rightarrow> l' | None \<Rightarrow> l, c)) df"

text \<open>
  \<open>df.pop(item)\<close>: \<open>KeyError\<close> when no column has the label; otherwise the columns under
  the label (one \<open>Series\<close>, or a \<open>DataFrame\<close> of several when the label repeats) and the
  frame without them.
\<close>

definition pop :: "string frame \<Rightarrow> string \<Rightarrow> error + (column list \<times> string frame)" where
  "pop df item =
     (let hit = filter (\<lambda>(l, c). l = item) df in
      if hit = [] then Inl (KeyError [item])
      else Inr (map snd hit, filter (\<lambda>(l, c). l \<noteq> item) df))"

text \<open>\<open>df.insert(loc, label, col)\<close>.\<close>

definition insert_column :: "nat \<Rightarrow> string \<Rightarrow> column \<Rightarrow> string frame \<Rightarrow> error + string frame" where
  "insert_column loc l c df =
     (if l \<in> set (labels df) then Inl (ValueError (''cannot insert '' @ l @ '', already exists''))
      else if length df < loc then Inl (ValueError ''index out of bounds'')
      else Inr (take loc df @ [(l, c)] @ drop loc df))"

text \<open>\<open>df[label] = col\<close>: replaces the columns under the label, or appends a new one.\<close>

definition setitem :: "string frame \<Rightarrow> string \<Rightarrow> column \<Rightarrow> string frame" where
  "setitem df l c =
     (if l \<in> set (labels df) then map (\<lambda>(l', c'). if l' = l then (l', c) else (l', c')) df
      else df @ [(l, c)])"

text \<open>\<open>df[label]\<close>: the columns under the label.\<close>

definition getitem :: "string frame \<Rightarrow> string \<Rightarrow> column list" where
  "getitem df l = map snd (filter (\<lambda>(l', c). l' = l) df)"

text \<open>The numeric columns of a frame, and a count read as a number (missing counts as 0 in a sum).\<close>

fun numeric_cols :: "'l frame \<Rightarrow> int option list list" where
  "numeric_cols [] = []"
| "numeric_cols ((l, NumericCol ns) # df) = ns # numeric_cols df"
| "numeric_cols ((l, ObjectCol vs) # df) = numeric_cols df"

definition num0 :: "int option \<Rightarrow> int" where
  "num0 n = (case n of None \<Rightarrow> 0 | Some k \<Rightarrow> k)"

text \<open>\<open>df.sum(numeric_only=True, axis=1)\<close>: one sum per row, over the numeric columns.\<close>

definition sum_axis1 :: "'l frame \<Rightarrow> int list" where
  "sum_axis1 df = map (\<lambda>i. sum_list (map (\<lambda>ns. num0 (ns ! i)) (numeric_cols df))) [0..<nrows df]"

section \<open>Label dictionaries\<close>

definition STATUSES :: "string \<rightharpoonup> string" where
  "STATUSES = map_of
     [(''Declined'', ''Declined''),
      (''Rejected'', ''Rejected''),
      (''Returned'', ''Returned''),
      (''Posted'', ''Posted''),
      (''CR_PARTIC_NAME'', ''CR_PARTIC_NAME'')]"

text \<open>
  Texts are sequences of bytes in UTF-8; the right single quotation mark of one key is the
  three bytes \<open>E2 80 99\<close>.
\<close>

definition SUB_STATUSES :: "string \<rightharpoonup> string" where
  "SUB_STATUSES = map_of
     [(''Duplication'', '' Duplication''),
      (''No response from Beneficiary'', '' No Response''),
      (''Amount is invalid or missing'', '' Amount Invalid''),
      (''Already returned original SCT'', '' Already Returned''),
      (''Account number is invalid or missing'', '' Account Invalid''),
      (''Account currency is invalid or missing'', '' Currency Invalid''),
      (''Payment is a duplicate of another payment'', '' Duplicate Payment''),
      (''Reason has not been specified by end customer'', '' Reason Not Specified''),
      (''Creditor account number invalid or missing'', '' Creditor Account Invalid''),
      (''Specific transaction/message amount is greater than allowed maximum'', '' Amount Exceed''),
      (''Transaction forbidden on this type of account (formerly No Agreement)'', '' Transaction Forbidden''),
      (''Account specified is blocked, prohibiting posting of transactions against it'', '' Account Blocked''),
      (''Account number specified has been closed on the bank of accounts books'', '' Account Specified Closed''),
      (''Cancellation requested following technical problems resulting in an erroneous transaction'', '' Technical Problems''),
      (''Specification of the debtor'' @ [CHR 0xE2, CHR 0x80, CHR 0x99] @
         ''s name and/or address needed for regulatory requirements is insufficient or missing'',
       '' Missing Debtor Name Or Address''),
      (''Success'', '' Success''),
      (''Invalid value'', '' Invalid Value''),
      (''Lack of funds'', '' Lack of Funds''),
      (''Wrong rejection motive'', '' Wrong motive''),
      (''Invalid value date'', '' Invalid value date''),
      (''Payment is not found'', '' Payment not Found''),
      (''Document was rejected by timeout'', '' Timeout''),
      (''On-us dynamic QR code payment'', '' DQRC Payment''),
      (''Cancellation requested by the Debtor'', '' Cancelled by Debtor''),
      (''Partial return requested by customer'', '' Partial return by Customer''),
      (''Reason has not been specified by agent'', '' Reason not specified by Agent''),
      (''Return for original payment is already registered'', '' Return already Registered''),
      (''Original credit transfer never received'', '' Original credit transfer never received''),
      (''Amount of funds available to cover specified message amount is insufficient'', '' Amount Insufficient''),
      (''Transaction type not supported/authorized on this account'', '' Transaction not supported on this account''),
      (''Invalid value customer identification (such as CNIC, NTN, POC, etc.)'', '' Invalid Customer Identification''),
      (''Specification of the debtors account or unique identification needed for reasons of regulatory requirements is insufficient or missing'',
       '' Regulatory requirements are insufficient'')]"

section \<open>A sample run\<close>

text \<open>
  Two extracts: the first has a seventh column and a row with operation code \<open>CSDC\<close>,
  the second a row without identifier and reject motive.
\<close>

definition ex_sheet_a :: sheet where
  "ex_sheet_a =
     \<lparr> header = required_columns @ [''AMOUNT''],
       body =
         [[Some ''e1'', Some ''X'', Some ''Y'', Some ''Posted'', Some ''CTWA'', None, Some ''10''],
          [Some ''e2'', Some ''X'', Some ''Y'', Some ''Posted'', Some ''CTWA'', None, Some ''5''],
          [Some ''e3'', Some ''X'', Some ''Z'', Some ''Declined'', Some ''CTWA'',
           Some ''Lack of funds.AM04'', Some ''7''],
          [Some ''e4'', Some ''W'', Some ''Y'', Some ''Posted'', Some ''CSDC'', None, Some ''1'']] \<rparr>"

definition ex_sheet_b :: sheet where
  "ex_sheet_b =
     \<lparr> header = required_columns,
       body = [[None, Some ''Z'', Some ''Y'', Some ''Posted'', Some ''CTAA'', None]] \<rparr>"

definition ex_fs :: "string \<rightharpoonup> sheet" where
  "ex_fs = [''/in/a.xlsx'' \<mapsto> ex_sheet_a, ''/in/b.xlsx'' \<mapsto> ex_sheet_b]"

definition ex_files :: "string list" where
  "ex_files = [''/in/a.xlsx'', ''/in/b.xlsx'']"

definition mk_txn :: "string \<Rightarrow> string \<Rightarrow> string \<Rightarrow> string \<Rightarrow> string \<Rightarrow> string \<Rightarrow> txn" where
  "mk_txn i d c s b m =
     \<lparr> ENDTOENDID = Some i, DB_PARTIC_NAME = Some d, CR_PARTIC_NAME = Some c,
       TR_STATUS_NAME = Some s, BANK_OP_CODE = Some b, REJECT_MOTIVE_DESCRITION = Some m \<rparr>"

definition ex_corpus :: "txn list" where
  "ex_corpus =
     [mk_txn ''e1'' ''X'' ''Y'' ''Posted'' ''CTWA'' [],
      mk_txn ''e2'' ''X'' ''Y'' ''Posted'' ''CTWA'' [],
      mk_txn ''e3'' ''X'' ''Z'' ''Declined'' ''CTWA'' ''Lack of funds.AM04'',
      mk_txn [] ''Z'' ''Y'' ''Posted'' ''CTAA'' []]"

text \<open>An extract without the \<open>BANK_OP_CODE\<close> column.\<close>

definition ex_sheet_bad :: sheet where
  "ex_sheet_bad =
     \<lparr> header = [''ENDTOENDID'', ''DB_PARTIC_NAME'', ''CR_PARTIC_NAME'', ''TR_STATUS_NAME'',
                 ''REJECT_MOTIVE_DESCRITION''],
       body = [[Some ''e9'', Some ''X'', Some ''Y'', Some ''Posted'', None]] \<rparr>"

section \<open>Pivot tables\<close>

text \<open>
  \<open>pd.pivot_table(df, columns=..., index=..., values=..., aggfunc='count')\<close>. pandas groups
  the rows by the index key and the column key and leaves out every row in which one of
  them is missing; index and column keys are the sorted distinct keys of the rows left. The
  cell of an index key and a column key that no row carries together is missing; otherwise
  it is the number of those rows whose value is not missing. No column is all missing, so
  the final \<open>dropna\<close> of the pivot removes none.
\<close>

definition pivot_cell ::
  "txn list \<Rightarrow> (txn \<Rightarrow> 'c option) \<Rightarrow> (txn \<Rightarrow> cell) \<Rightarrow> (txn \<Rightarrow> cell) \<Rightarrow> string \<Rightarrow> 'c \<Rightarrow> int option" where
  "pivot_cell grouped columns_key index_key vals p k =
     (let g = filter (\<lambda>t. index_key t = Some p \<and> columns_key t = Some k) grouped in
      if g = [] then None else Some (int (length (filter (\<lambda>t. vals t \<noteq> None) g))))"

definition pivot_table ::
  "txn list \<Rightarrow> (txn \<Rightarrow> ('c::linorder) option) \<Rightarrow> (txn \<Rightarrow> cell) \<Rightarrow> (txn \<Rightarrow> cell) \<Rightarrow>
   string list \<times> ('c \<times> int option list) list" where
  "pivot_table df columns_key index_key vals =
     (let grouped = filter (\<lambda>t. index_key t \<noteq> None \<and> columns_key t \<noteq> None) df;
          idx = sort (remdups (List.map_filter index_key grouped));
          cols = sort (remdups (List.map_filter columns_key grouped))
      in (idx, map (\<lambda>k. (k, map (\<lambda>p. pivot_cell grouped columns_key index_key vals p k) idx)) cols))"

text \<open>
  \<open>.reset_index()\<close>: the index becomes the first column, under the index's name; pandas
  refuses when a column has that label already.
\<close>

definition reset_index :: "'l \<Rightarrow> string list \<times> ('l \<times> int option list) list \<Rightarrow> error + 'l frame" where
  "reset_index name tbl =
     (if name \<in> set (map fst (snd tbl)) then Inl (ValueError ''cannot insert, already exists'')
      else Inr ((name, ObjectCol (map Str (fst tbl))) # map (\<lambda>(k, ns). (k, NumericCol ns)) (snd tbl)))"

section \<open>Debtor aggregator\<close>

text \<open>\<open>df[l] = df[l].astype(int)\<close>.\<close>

fun astype_int :: "string \<Rightarrow> string frame \<Rightarrow> error + string frame" where
  "astype_int l [] = Inr []"
| "astype_int l ((l', c) # df) =
     (case (if l' = l then astype_int_col c else Inr c) of
        Inl e \<Rightarrow> Inl e
      | Inr c' \<Rightarrow> (case astype_int l df of Inl e \<Rightarrow> Inl e | Inr df' \<Rightarrow> Inr ((l', c') # df')))"

definition extract_debitor_details :: "txn list \<Rightarrow> error + string frame" where
  "extract_debitor_details df_deb =
     (case reset_index ''DB_PARTIC_NAME'' (pivot_table df_deb TR_STATUS_NAME DB_PARTIC_NAME ENDTOENDID) of
        Inl e \<Rightarrow> Inl e
      | Inr df1 \<Rightarrow>
          (case loc_columns df1 [''DB_PARTIC_NAME'', ''Posted''] of
             Inl e \<Rightarrow> Inl e
           | Inr df2 \<Rightarrow>
               (case astype_int ''Posted'' (fillna0 df2) of
                  Inl e \<Rightarrow> Inl e
                | Inr df3 \<Rightarrow>
                    Inr (rename [(''DB_PARTIC_NAME'', ''PARTICIPANT_NAME''), (''Posted'', ''Sent Posted'')] df3))))"

section \<open>Creditor aggregator\<close>

text \<open>
  \<open>s.rsplit(sep, 1)\<close>: the text is cut at the last occurrence of the separator, found by
  its position; without one the text is the only part.
\<close>

fun rfind :: "char \<Rightarrow> string \<Rightarrow> nat option" where
  "rfind sep [] = None"
| "rfind sep (c # cs) =
     (case rfind sep cs of
        Some i \<Rightarrow> Some (Suc i)
      | None \<Rightarrow> if c = sep then Some 0 else None)"

definition rsplit1 :: "char \<Rightarrow> string \<Rightarrow> string list" where
  "rsplit1 sep s = (case rfind sep s of None \<Rightarrow> [s] | Some i \<Rightarrow> [take i s, drop (Suc i) s])"

text \<open>\<open>s.replace("'", "")\<close>; the apostrophe is the byte \<open>0x27\<close>.\<close>

definition remove_quotes :: "string \<Rightarrow> string" where
  "remove_quotes s = filter (\<lambda>c. c \<noteq> CHR 0x27) s"

text \<open>The body of the loop over \<open>cols\<close>, for one column \<open>item\<close>.\<close>

definition new_col_name :: "string \<times> string \<Rightarrow> string" where
  "new_col_name item =
     (let temp_col_name = [];
          temp_col_name = (if fst item \<in> dom STATUSES then temp_col_name @ the (STATUSES (fst item))
                           else temp_col_name);
          sub_status = hd (rsplit1 CHR ''.'' (snd item));
          sub_status = remove_quotes sub_status
      in if sub_status \<in> dom SUB_STATUSES then temp_col_name @ the (SUB_STATUSES sub_status)
         else temp_col_name)"

fun new_cols_loop :: "(string \<times> string) list \<Rightarrow> string list \<Rightarrow> string list" where
  "new_cols_loop [] new_cols = new_cols"
| "new_cols_loop (item # cols) new_cols = new_cols_loop cols (new_cols @ [new_col_name item])"

text \<open>\<open>df.columns = new_cols\<close>, for as many labels as the frame has columns.\<close>

definition set_columns :: "'a frame \<Rightarrow> 'b list \<Rightarrow> 'b frame" where
  "set_columns df ls = map2 (\<lambda>l' (l, c). (l', c)) ls df"

text \<open>The key of the creditor pivot's columns: the pair of status and reject motive.\<close>

definition status_motive :: "txn \<Rightarrow> (string \<times> string) option" where
  "status_motive t =
     (case TR_STATUS_NAME t of
        None \<Rightarrow> None
      | Some s \<Rightarrow> (case REJECT_MOTIVE_DESCRITION t of None \<Rightarrow> None | Some m \<Rightarrow> Some (s, m)))"

subsection \<open>The success percentage\<close>

text \<open>
  \<open>float64\<close> arithmetic, written out on rationals: a result is the exact value rounded to
  the nearest number with 53 significant bits, ties to the even one. The exponent range
  is not modelled: quotients of counts and their hundredfold are far inside it.
\<close>

definition round_half_even :: "rat \<Rightarrow> int" where
  "round_half_even x =
     (let f = \<lfloor>x\<rfloor>; r = x - of_int f in
      if r < 1 / 2 then f else if 1 / 2 < r then f + 1 else if even f then f else f + 1)"

definition pow2 :: "int \<Rightarrow> rat" where
  "pow2 e = (if 0 \<le> e then 2 ^ nat e else 1 / 2 ^ nat (- e))"

text \<open>The exponent \<open>e\<close> with \<open>2^e \<le> x < 2^(e+1)\<close>, for positive \<open>x\<close>.\<close>

definition ilog2 :: "rat \<Rightarrow> int" where
  "ilog2 x =
     (let (a, b) = quotient_of x; e = bitlen a - bitlen b in
      if pow2 e \<le> x then e else e - 1)"

definition to_double :: "rat \<Rightarrow> rat" where
  "to_double x =
     (if x = 0 then 0
      else let u = pow2 (ilog2 \<bar>x\<bar> - 52) in of_int (round_half_even (x / u)) * u)"

definition fdiv :: "rat \<Rightarrow> rat \<Rightarrow> rat" where
  "fdiv a b = to_double (a / b)"

definition fmul :: "rat \<Rightarrow> rat \<Rightarrow> rat" where
  "fmul a b = to_double (a * b)"

text \<open>Decimal digits of a natural number.\<close>

fun digits :: "nat \<Rightarrow> string" where
  "digits n = (if n < 10 then [char_of (48 + n)] else digits (n div 10) @ [char_of (48 + n mod 10)])"

declare digits.simps [simp del]

text \<open>
  \<open>'{0:.2f}'.format(x)\<close> for a finite \<open>x\<close>: the decimal with two places nearest to the
  exact value of \<open>x\<close>, ties to even, with the sign of \<open>x\<close>.
\<close>

definition format_2f :: "rat \<Rightarrow> string" where
  "format_2f x =
     (let n = round_half_even (\<bar>x\<bar> * 100) in
      (if x < 0 then ''-'' else []) @ digits (nat (n div 100)) @ ''.'' @
      [char_of (48 + n mod 100 div 10), char_of (48 + n mod 10)])"

text \<open>
  One cell of \<open>(df['Posted'] / df['Grand Total']) * 100\<close> for a divisor other than 0
  (\<open>success_value\<close>), and the cell formatted and followed by
  \<open>%\<close>. numpy divides without raising: a missing operand or \<open>0/0\<close> gives \<open>nan\<close>, another
  division by zero an infinity, and zero over a negative number the negative zero.
\<close>

definition success_value :: "int \<Rightarrow> int \<Rightarrow> rat" where
  "success_value p g = fmul (fdiv (to_double (of_int p)) (to_double (of_int g))) 100"

definition success_text :: "int option \<Rightarrow> int option \<Rightarrow> string" where
  "success_text posted grand =
     (case (posted, grand) of
        (Some p, Some g) \<Rightarrow>
          if g = 0 then (if p = 0 then ''nan%'' else if 0 < p then ''inf%'' else ''-inf%'')
          else if p = 0 \<and> g < 0 then ''-0.00%''
          else format_2f (success_value p g) @ ''%''
      | _ \<Rightarrow> ''nan%'')"

text \<open>
  The \<open>Success\<close> column from the columns under \<open>Posted\<close> and \<open>Grand Total\<close>. Each label
  names one numeric column when the line is reached; pandas does not divide otherwise.
\<close>

definition success_column :: "string frame \<Rightarrow> error + column" where
  "success_column df =
     (case (getitem df ''Posted'', getitem df ''Grand Total'') of
        ([NumericCol p], [NumericCol g]) \<Rightarrow> Inr (ObjectCol (map2 (\<lambda>a b. Str (success_text a b)) p g))
      | _ \<Rightarrow> Inl (ValueError ''operands of the division are not two numeric columns''))"

definition extract_creditor_details :: "txn list \<Rightarrow> error + string frame" where
  "extract_creditor_details df_cred =
     (case reset_index (''CR_PARTIC_NAME'', []) (pivot_table df_cred status_motive CR_PARTIC_NAME ENDTOENDID) of
        Inl e \<Rightarrow> Inl e
      | Inr df0 \<Rightarrow>
          (let df1 = fillna0 df0;
               cols = labels df1;
               new_cols = new_cols_loop cols [];
               df2 = set_columns df1 new_cols
           in case pop df2 ''Posted'' of
                Inl e \<Rightarrow> Inl e
              | Inr (col_posted, df3) \<Rightarrow>
                  (case col_posted of
                     [c] \<Rightarrow>
                       (case insert_column 1 ''Posted'' c df3 of
                          Inl e \<Rightarrow> Inl e
                        | Inr df4 \<Rightarrow>
                            (let df5 = setitem df4 ''Grand Total'' (NumericCol (map Some (sum_axis1 df4)))
                             in case success_column df5 of
                                  Inl e \<Rightarrow> Inl e
                                | Inr s \<Rightarrow>
                                    Inr (rename [(''CR_PARTIC_NAME'', ''PARTICIPANT_NAME''),
                                                 (''Posted'', ''Received Posted'')]
                                          (setitem df5 ''Success'' s))))
                   | _ \<Rightarrow> Inl (AttributeError ''name''))))"

text \<open>A row without missing values, as \<open>fillna("")\<close> leaves it.\<close>

definition filled :: "txn \<Rightarrow> bool" where
  "filled t \<longleftrightarrow> ENDTOENDID t \<noteq> None \<and> DB_PARTIC_NAME t \<noteq> None \<and> CR_PARTIC_NAME t \<noteq> None \<and>
     TR_STATUS_NAME t \<noteq> None \<and> BANK_OP_CODE t \<noteq> None \<and> REJECT_MOTIVE_DESCRITION t \<noteq> None"

subsection \<open>The column name as the specification words it\<close>

text \<open>
  The status fragment is the Status Dictionary's label of the status, or nothing; the
  reject motive loses its last \<open>.\<close> separator with the segment that follows it, then its
  quote characters, and the residual is looked up in the Sub-Status Dictionary; the status
  fragment comes first. The quote character is the apostrophe \<open>0x27\<close>: the text is read
  character by character, an apostrophe is left out and every other character kept.
\<close>

definition spec_strip_qualifier :: "string \<Rightarrow> string" where
  "spec_strip_qualifier m =
     (if CHR ''.'' \<in> set m then rev (tl (dropWhile (\<lambda>c. c \<noteq> CHR ''.'') (rev m))) else m)"

fun spec_strip_quotes :: "string \<Rightarrow> string" where
  "spec_strip_quotes [] = []"
| "spec_strip_quotes (c # cs) =
     (if c = CHR 0x27 then spec_strip_quotes cs else c # spec_strip_quotes cs)"

definition spec_column_name :: "string \<Rightarrow> string \<Rightarrow> string" where
  "spec_column_name status motive =
     (case STATUSES status of Some l \<Rightarrow> l | None \<Rightarrow> []) @
     (case SUB_STATUSES (spec_strip_quotes (spec_strip_qualifier motive)) of Some l \<Rightarrow> l | None \<Rightarrow> [])"

subsection \<open>The creditor aggregate in closed form\<close>

text \<open>
  The pivot of the creditor aggregator, its count columns under their derived names with
  missing counts as 0, and the frame the aggregator builds from the participant names,
  the \<open>Posted\<close> counts and the other count columns. The properties of
  \<open>extract_creditor_details\<close> are stated against them.
\<close>

definition creditor_pivot :: "txn list \<Rightarrow> string list \<times> ((string \<times> string) \<times> int option list) list" where
  "creditor_pivot df = pivot_table df status_motive CR_PARTIC_NAME ENDTOENDID"

definition status_columns :: "txn list \<Rightarrow> (string \<times> int list) list" where
  "status_columns df = map (\<lambda>(k, ns). (new_col_name k, map num0 ns)) (snd (creditor_pivot df))"

definition row_total :: "int list \<Rightarrow> (string \<times> int list) list \<Rightarrow> nat \<Rightarrow> int" where
  "row_total posted rest i = posted ! i + (\<Sum>(l, ns) \<leftarrow> rest. ns ! i)"

definition creditor_frame :: "string list \<Rightarrow> int list \<Rightarrow> (string \<times> int list) list \<Rightarrow> string frame" where
  "creditor_frame names posted rest =
     (''PARTICIPANT_NAME'', ObjectCol (map Str names)) #
     (''Received Posted'', NumericCol (map Some posted)) #
     map (\<lambda>(l, ns). (if l = ''CR_PARTIC_NAME'' then ''PARTICIPANT_NAME'' else l, NumericCol (map Some ns))) rest @
     [(''Grand Total'', NumericCol (map (\<lambda>i. Some (row_total posted rest i)) [0..<length names])),
      (''Success'',
       ObjectCol (map (\<lambda>i. Str (success_text (Some (posted ! i)) (Some (row_total posted rest i))))
                   [0..<length names]))]"

text \<open>
  Two extracts without a \<open>Posted\<close> row: in the first the one status is the text
  \<open>DB_PARTIC_NAME\<close>, in the second \<open>Declined\<close>.
\<close>

definition ex_sheet_odd :: sheet where
  "ex_sheet_odd =
     \<lparr> header = required_columns,
       body = [[Some ''e1'', Some ''X'', Some ''Y'', Some ''DB_PARTIC_NAME'', Some ''CTWA'', None]] \<rparr>"

definition ex_corpus_odd :: "txn list" where
  "ex_corpus_odd = [mk_txn ''e1'' ''X'' ''Y'' ''DB_PARTIC_NAME'' ''CTWA'' []]"

definition ex_sheet_declined :: sheet where
  "ex_sheet_declined =
     \<lparr> header = required_columns,
       body = [[Some ''e1'', Some ''X'', Some ''Y'', Some ''Declined'', Some ''CTWA'',
                Some ''Lack of funds.AM04'']] \<rparr>"

definition ex_corpus_declined :: "txn list" where
  "ex_corpus_declined = [mk_txn ''e1'' ''X'' ''Y'' ''Declined'' ''CTWA'' ''Lack of funds.AM04'']"

subsection \<open>A reject motive with an apostrophe\<close>

definition ex_motive_quoted :: string where
  "ex_motive_quoted =
     ''Specification of the debtor'' @ [CHR 0x27] @
     ''s account or unique identification needed for reasons of regulatory requirements is insufficient or missing.RR04''"

subsection \<open>A sample with a debtor that posted nothing\<close>


definition ex_corpus_mixed :: "txn list" where
  "ex_corpus_mixed =
     [mk_txn ''e1'' ''X'' ''Y'' ''Posted'' ''CTWA'' [],
      mk_txn ''e2'' ''Z'' ''Y'' ''Declined'' ''CTWA'' ''Lack of funds.AM04'',
      mk_txn ''e3'' ''X'' ''Y'' ''Posted'' ''CTWA'' [],
      mk_txn ''e4'' ''Z'' ''W'' ''Declined'' ''CTWA'' ex_motive_quoted,
      mk_txn ''e5'' ''X'' ''W'' ''Posted'' ''CTWA'' []]"

subsection \<open>Reading a rendered number\<close>

text \<open>A decimal digit, and the number a text of digits denotes.\<close>

definition is_digit :: "char \<Rightarrow> bool" where
  "is_digit c \<longleftrightarrow> 48 \<le> (of_char c :: nat) \<and> (of_char c :: nat) \<le> 57"

definition decimal_of :: "string \<Rightarrow> nat" where
  "decimal_of s = foldl (\<lambda>a c. 10 * a + (of_char c - 48)) 0 s"

section \<open>Properties of the record filter and the corpus builder\<close>

lemma keep_row_fill:
  "keep_row t \<Longrightarrow>
   keep_row \<lparr> ENDTOENDID = a, DB_PARTIC_NAME = b, CR_PARTIC_NAME = c, TR_STATUS_NAME = d,
              BANK_OP_CODE = fill_cell (BANK_OP_CODE t), REJECT_MOTIVE_DESCRITION = e \<rparr>"
  by (cases "BANK_OP_CODE t") (simp_all add: keep_row_def fill_cell_def)

lemma fillna_empty_keeps:
  "\<forall>t \<in> set data. keep_row t \<Longrightarrow> \<forall>t \<in> set (fillna_empty data). keep_row t"
  by (auto simp: fillna_empty_def intro: keep_row_fill)

lemma filter_file_keeps:
  "filter_file fs p = Inr rows \<Longrightarrow> \<forall>t \<in> set rows. keep_row t"
  by (auto simp: filter_file_def split: option.splits if_splits)

lemma merge_loop_keeps:
  "merge_loop fs sp files data = Inr corpus \<Longrightarrow> \<forall>t \<in> set data. keep_row t \<Longrightarrow>
   \<forall>t \<in> set corpus. keep_row t"
proof (induction files arbitrary: data)
  case Nil
  then show ?case by simp
next
  case (Cons f files)
  from Cons.prems(1) obtain temp_df where
    t: "filter_file fs (join sp f) = Inr temp_df" and
    r: "merge_loop fs sp files (fillna_empty (data @ temp_df)) = Inr corpus"
    by (auto simp: Let_def split: if_splits sum.splits)
  have "\<forall>t \<in> set (data @ temp_df). keep_row t"
    using Cons.prems(2) filter_file_keeps [OF t] by auto
  then have "\<forall>t \<in> set (fillna_empty (data @ temp_df)). keep_row t"
    by (rule fillna_empty_keeps)
  with Cons.IH [OF r] show ?case .
qed

text \<open>
  C4. Whatever the extracts hold, no row of the corpus \<open>merge_files\<close> returns has the
  operation code \<open>CSDC\<close> or \<open>PMCT\<close>.
\<close>

theorem corpus_excludes_op_codes:
  assumes "merge_files fs source_path files = Inr corpus" and "t \<in> set corpus"
  shows "BANK_OP_CODE t \<noteq> Some ''CSDC'' \<and> BANK_OP_CODE t \<noteq> Some ''PMCT''"
proof -
  have "\<forall>t \<in> set corpus. keep_row t"
    using assms(1) merge_loop_keeps [of fs source_path files "[]" corpus]
    by (simp add: merge_files_def)
  with assms(2) show ?thesis by (simp add: keep_row_def)
qed

lemma ex_merge: "merge_files ex_fs ''/in'' ex_files = Inr ex_corpus"
  by (simp add: merge_files_def ex_files_def ex_fs_def join_def filter_file_def
      missing_columns_def required_columns_def ex_sheet_a_def ex_sheet_b_def project_def
      lookup_cell_def keep_row_def fillna_empty_def fill_cell_def ex_corpus_def mk_txn_def)

theorem corpus_excludes_op_codes_witness:
  "merge_files ex_fs ''/in'' ex_files = Inr ex_corpus
   \<and> mk_txn ''e1'' ''X'' ''Y'' ''Posted'' ''CTWA'' [] \<in> set ex_corpus
   \<and> BANK_OP_CODE (mk_txn ''e1'' ''X'' ''Y'' ''Posted'' ''CTWA'' []) \<noteq> Some ''CSDC''
   \<and> BANK_OP_CODE (mk_txn ''e1'' ''X'' ''Y'' ''Posted'' ''CTWA'' []) \<noteq> Some ''PMCT''"
proof -
  have m: "mk_txn ''e1'' ''X'' ''Y'' ''Posted'' ''CTWA'' [] \<in> set ex_corpus"
    by (simp add: ex_corpus_def)
  show ?thesis
    using corpus_excludes_op_codes [OF ex_merge m] ex_merge m by simp
qed

lemma merge_loop_fails:
  "f \<in> set files \<Longrightarrow> filter_file fs (join sp f) = Inl e0 \<Longrightarrow>
   \<exists>e. merge_loop fs sp files data = Inl e"
proof (induction files arbitrary: data)
  case Nil
  then show ?case by simp
next
  case (Cons g files)
  show ?case
  proof (cases "g = f")
    case True
    with Cons.prems(2) show ?thesis by (simp add: Let_def)
  next
    case False
    with Cons.prems have "f \<in> set files" by simp
    from Cons.IH [OF this Cons.prems(2)] show ?thesis
      by (auto simp: Let_def split: sum.splits)
  qed
qed

text \<open>
  C8, as the claim states it, fails: an extract without the \<open>BANK_OP_CODE\<close> column makes
  \<open>filter_file\<close> raise pandas' \<open>KeyError\<close>, whose message lists the missing label and
  not the file.
\<close>

theorem schema_error_names_file_counterexample:
  "filter_file [''/in/bad.xlsx'' \<mapsto> ex_sheet_bad] ''/in/bad.xlsx'' = Inl (KeyError [''BANK_OP_CODE''])
   \<and> ''/in/bad.xlsx'' \<notin> set (named_in_message (KeyError [''BANK_OP_CODE'']))"
  by (simp add: filter_file_def missing_columns_def required_columns_def ex_sheet_bad_def)

text \<open>
  C8, amended. An extract that lacks one of the six required columns makes \<open>filter_file\<close>
  raise \<open>KeyError\<close> with exactly the missing required columns; the path of the file,
  unless it is itself the name of a required column, is not among the labels the message
  lists; and \<open>merge_files\<close> over a list that holds the file raises too: the file is not
  skipped.
\<close>

theorem missing_column_surfaces:
  assumes "fs (join source_path f) = Some x" and "missing_columns x \<noteq> []" and "f \<in> set files"
    and "join source_path f \<notin> set required_columns"
  shows "filter_file fs (join source_path f) = Inl (KeyError (missing_columns x))
         \<and> set (missing_columns x) = set required_columns - set (header x)
         \<and> join source_path f \<notin> set (named_in_message (KeyError (missing_columns x)))
         \<and> (\<exists>e. merge_files fs source_path files = Inl e)"
proof -
  have a: "filter_file fs (join source_path f) = Inl (KeyError (missing_columns x))"
    using assms(1,2) by (simp add: filter_file_def)
  have b: "set (missing_columns x) = set required_columns - set (header x)"
    by (auto simp: missing_columns_def)
  have n: "join source_path f \<notin> set (named_in_message (KeyError (missing_columns x)))"
    using assms(4) b by simp
  have c: "\<exists>e. merge_files fs source_path files = Inl e"
    unfolding merge_files_def using merge_loop_fails [OF assms(3) a] .
  from a b n c show ?thesis by simp
qed

theorem missing_column_surfaces_witness:
  "[''/in/a.xlsx'' \<mapsto> ex_sheet_a, ''/in/bad.xlsx'' \<mapsto> ex_sheet_bad] (join ''/in'' ''/in/bad.xlsx'') = Some ex_sheet_bad
   \<and> missing_columns ex_sheet_bad \<noteq> []
   \<and> ''/in/bad.xlsx'' \<in> set [''/in/a.xlsx'', ''/in/bad.xlsx'']
   \<and> join ''/in'' ''/in/bad.xlsx'' \<notin> set required_columns
   \<and> filter_file [''/in/a.xlsx'' \<mapsto> ex_sheet_a, ''/in/bad.xlsx'' \<mapsto> ex_sheet_bad] (join ''/in'' ''/in/bad.xlsx'')
       = Inl (KeyError [''BANK_OP_CODE''])
   \<and> join ''/in'' ''/in/bad.xlsx'' \<notin> set (named_in_message (KeyError [''BANK_OP_CODE'']))
   \<and> (\<exists>e. merge_files [''/in/a.xlsx'' \<mapsto> ex_sheet_a, ''/in/bad.xlsx'' \<mapsto> ex_sheet_bad] ''/in''
         [''/in/a.xlsx'', ''/in/bad.xlsx''] = Inl e)"
proof -
  have h1: "[''/in/a.xlsx'' \<mapsto> ex_sheet_a, ''/in/bad.xlsx'' \<mapsto> ex_sheet_bad] (join ''/in'' ''/in/bad.xlsx'') = Some ex_sheet_bad"
    by (simp add: join_def)
  have h2: "missing_columns ex_sheet_bad \<noteq> []"
    by (simp add: missing_columns_def required_columns_def ex_sheet_bad_def)
  have h3: "''/in/bad.xlsx'' \<in> set [''/in/a.xlsx'', ''/in/bad.xlsx'']" by simp
  have h4: "join ''/in'' ''/in/bad.xlsx'' \<notin> set required_columns"
    by (simp add: join_def required_columns_def)
  have m: "missing_columns ex_sheet_bad = [''BANK_OP_CODE'']"
    by (simp add: missing_columns_def required_columns_def ex_sheet_bad_def)
  show ?thesis
    using missing_column_surfaces
      [of "[''/in/a.xlsx'' \<mapsto> ex_sheet_a, ''/in/bad.xlsx'' \<mapsto> ex_sheet_bad]" "''/in''"
          "''/in/bad.xlsx''" ex_sheet_bad "[''/in/a.xlsx'', ''/in/bad.xlsx'']"]
      h1 h2 h3 h4 m by simp
qed

section \<open>Properties of the corpus and of pivot tables\<close>


lemma fill_cell_Some: "\<exists>y. fill_cell c = Some y"
  by (cases c) (simp_all add: fill_cell_def)

lemma fillna_empty_filled: "\<forall>t \<in> set (fillna_empty data). filled t"
  by (auto simp: fillna_empty_def filled_def fill_cell_Some)

lemma merge_loop_filled:
  "merge_loop fs sp files data = Inr corpus \<Longrightarrow> \<forall>t \<in> set data. filled t \<Longrightarrow>
   \<forall>t \<in> set corpus. filled t"
proof (induction files arbitrary: data)
  case Nil
  then show ?case by simp
next
  case (Cons f files)
  from Cons.prems(1) obtain temp_df where
    r: "merge_loop fs sp files (fillna_empty (data @ temp_df)) = Inr corpus"
    by (auto simp: Let_def split: if_splits sum.splits)
  from Cons.IH [OF r fillna_empty_filled] show ?case .
qed

lemma merge_files_filled:
  "merge_files fs sp files = Inr corpus \<Longrightarrow> t \<in> set corpus \<Longrightarrow> filled t"
  using merge_loop_filled [of fs sp files "[]" corpus] by (simp add: merge_files_def)

lemma filter_label_map_distinct:
  "distinct ks \<Longrightarrow> k \<in> set ks \<Longrightarrow>
   filter (\<lambda>(l, c). l = k) (map (\<lambda>k. (k, f k)) ks) = [(k, f k)]"
proof (induction ks)
  case Nil
  then show ?case by simp
next
  case (Cons a ks)
  show ?case
  proof (cases "a = k")
    case True
    with Cons.prems have "k \<notin> set ks" by simp
    then have "filter (\<lambda>(l, c). l = k) (map (\<lambda>k. (k, f k)) ks) = []"
      by (induction ks) auto
    with True show ?thesis by simp
  next
    case False
    with Cons show ?thesis by simp
  qed
qed

lemma filter_label_map_absent:
  "k \<notin> set ks \<Longrightarrow> filter (\<lambda>(l, c). l = k) (map (\<lambda>k. (k, f k)) ks) = []"
  by (induction ks) auto

lemma set_map_filter: "set (List.map_filter f xs) = {y. \<exists>x \<in> set xs. f x = Some y}"
  by (induction xs) (auto split: option.splits)

lemma pivot_table_shape:
  "pivot_table df ck ik vs =
     (sort (remdups (List.map_filter ik (filter (\<lambda>t. ik t \<noteq> None \<and> ck t \<noteq> None) df))),
      map (\<lambda>k. (k, map (\<lambda>p. pivot_cell (filter (\<lambda>t. ik t \<noteq> None \<and> ck t \<noteq> None) df) ck ik vs p k)
                     (sort (remdups (List.map_filter ik (filter (\<lambda>t. ik t \<noteq> None \<and> ck t \<noteq> None) df))))))
          (sort (remdups (List.map_filter ck (filter (\<lambda>t. ik t \<noteq> None \<and> ck t \<noteq> None) df)))))"
  by (simp add: pivot_table_def Let_def)


lemma pivot_index_set:
  "set (fst (pivot_table df ck ik vs)) = {p. \<exists>t \<in> set df. ik t = Some p \<and> ck t \<noteq> None}"
  by (auto simp: pivot_table_shape set_map_filter)

lemma pivot_keys_distinct: "distinct (map fst (snd (pivot_table df ck ik vs)))"
  by (simp add: pivot_table_shape comp_def)

lemma pivot_keys_set:
  "set (map fst (snd (pivot_table df ck ik vs))) = {k. \<exists>t \<in> set df. ck t = Some k \<and> ik t \<noteq> None}"
  by (auto simp: pivot_table_shape set_map_filter comp_def)

lemma pivot_cell_grouped:
  "pivot_cell (filter (\<lambda>t. ik t \<noteq> None \<and> ck t \<noteq> None) df) ck ik vs p k =
   (if \<exists>t \<in> set df. ik t = Some p \<and> ck t = Some k
    then Some (int (length (filter (\<lambda>t. ik t = Some p \<and> ck t = Some k \<and> vs t \<noteq> None) df)))
    else None)"
proof -
  have eq: "filter (\<lambda>t. ik t = Some p \<and> ck t = Some k) (filter (\<lambda>t. ik t \<noteq> None \<and> ck t \<noteq> None) df)
            = filter (\<lambda>t. ik t = Some p \<and> ck t = Some k) df"
    by (induction df) auto
  have e2: "(filter (\<lambda>t. ik t = Some p \<and> ck t = Some k) df = []) \<longleftrightarrow> \<not> (\<exists>t \<in> set df. ik t = Some p \<and> ck t = Some k)"
    by (auto simp: filter_empty_conv)
  have e3: "filter (\<lambda>t. vs t \<noteq> None) (filter (\<lambda>t. ik t = Some p \<and> ck t = Some k) df)
            = filter (\<lambda>t. ik t = Some p \<and> ck t = Some k \<and> vs t \<noteq> None) df"
    by (induction df) auto
  show ?thesis
    unfolding pivot_cell_def Let_def eq e3 using e2 by auto
qed

section \<open>The debtor aggregate\<close>

lemma fillna0_names: "map (\<lambda>v. if v = NaN then Num 0 else v) (map Str xs) = map Str xs"
  by (induction xs) auto

lemma rename_two:
  "rename m [(a, c), (b, d)] =
     [(case map_of m a of Some l' \<Rightarrow> l' | None \<Rightarrow> a, c), (case map_of m b of Some l' \<Rightarrow> l' | None \<Rightarrow> b, d)]"
  by (simp add: rename_def)

lemma debtor_result:
  fixes df :: "txn list"
  defines "tbl \<equiv> pivot_table df TR_STATUS_NAME DB_PARTIC_NAME ENDTOENDID"
  shows "extract_debitor_details df =
     (if ''DB_PARTIC_NAME'' \<in> set (map fst (snd tbl)) then Inl (ValueError ''cannot insert, already exists'')
      else if ''Posted'' \<notin> set (map fst (snd tbl)) then Inl (KeyError [''Posted''])
      else Inr [(''PARTICIPANT_NAME'', ObjectCol (map Str (fst tbl))),
                (''Sent Posted'',
                 NumericCol (map (\<lambda>p. Some (num0 (pivot_cell
                     (filter (\<lambda>t. DB_PARTIC_NAME t \<noteq> None \<and> TR_STATUS_NAME t \<noteq> None) df)
                     TR_STATUS_NAME DB_PARTIC_NAME ENDTOENDID p ''Posted''))) (fst tbl)))])"
proof -
  define G where "G = filter (\<lambda>t. DB_PARTIC_NAME t \<noteq> None \<and> TR_STATUS_NAME t \<noteq> None) df"
  define idx where "idx = sort (remdups (List.map_filter DB_PARTIC_NAME G))"
  define keys where "keys = sort (remdups (List.map_filter TR_STATUS_NAME G))"
  define col where "col = (\<lambda>k. NumericCol (map (\<lambda>p. pivot_cell G TR_STATUS_NAME DB_PARTIC_NAME ENDTOENDID p k) idx))"
  have tbl: "tbl = (idx, map (\<lambda>k. (k, map (\<lambda>p. pivot_cell G TR_STATUS_NAME DB_PARTIC_NAME ENDTOENDID p k) idx)) keys)"
    unfolding tbl_def pivot_table_shape G_def idx_def keys_def ..
  have keys: "map fst (snd tbl) = keys" by (simp add: tbl comp_def)
  have dk: "distinct keys" by (simp add: keys_def)
  have cols: "map (\<lambda>(k, ns). (k, NumericCol ns)) (snd tbl) = map (\<lambda>k. (k, col k)) keys"
    by (simp add: tbl col_def comp_def)
  show ?thesis
  proof (cases "''DB_PARTIC_NAME'' \<in> set keys")
    case True
    then show ?thesis
      by (simp add: extract_debitor_details_def reset_index_def tbl_def [symmetric] keys)
  next
    case nodb: False
    define df1 where "df1 = (''DB_PARTIC_NAME'', ObjectCol (map Str idx)) # map (\<lambda>k. (k, col k)) keys"
    have ri: "reset_index ''DB_PARTIC_NAME'' tbl = Inr df1"
      using nodb by (simp add: reset_index_def keys cols df1_def) (simp add: tbl)
    have lab: "labels df1 = ''DB_PARTIC_NAME'' # keys"
      by (simp add: labels_def df1_def comp_def)
    show ?thesis
    proof (cases "''Posted'' \<in> set keys")
      case False
      then have "loc_columns df1 [''DB_PARTIC_NAME'', ''Posted''] = Inl (KeyError [''Posted''])"
        by (simp add: loc_columns_def lab)
      with nodb False show ?thesis
        by (simp add: extract_debitor_details_def tbl_def [symmetric] ri keys)
    next
      case True
      have f1: "filter (\<lambda>(l', c). l' = ''DB_PARTIC_NAME'') df1 = [(''DB_PARTIC_NAME'', ObjectCol (map Str idx))]"
        using filter_label_map_absent [OF nodb, of col] by (simp add: df1_def)
      have f2: "filter (\<lambda>(l', c). l' = ''Posted'') df1 = [(''Posted'', col ''Posted'')]"
        using filter_label_map_distinct [OF dk True, of col] by (simp add: df1_def)
      have lc: "loc_columns df1 [''DB_PARTIC_NAME'', ''Posted''] =
                Inr [(''DB_PARTIC_NAME'', ObjectCol (map Str idx)), (''Posted'', col ''Posted'')]"
        using True by (simp add: loc_columns_def lab f1 f2)
      have fl: "fillna0 [(''DB_PARTIC_NAME'', ObjectCol (map Str idx)), (''Posted'', col ''Posted'')] =
                [(''DB_PARTIC_NAME'', ObjectCol (map Str idx)),
                 (''Posted'', NumericCol (map (\<lambda>p. Some (num0 (pivot_cell G TR_STATUS_NAME DB_PARTIC_NAME ENDTOENDID p ''Posted''))) idx))]"
        by (auto simp: fillna0_def fillna0_names col_def num0_def split: option.splits)
      have at: "astype_int ''Posted'' [(''DB_PARTIC_NAME'', ObjectCol (map Str idx)),
                 (''Posted'', NumericCol (map (\<lambda>p. Some (num0 (pivot_cell G TR_STATUS_NAME DB_PARTIC_NAME ENDTOENDID p ''Posted''))) idx))]
               = Inr [(''DB_PARTIC_NAME'', ObjectCol (map Str idx)),
                 (''Posted'', NumericCol (map (\<lambda>p. Some (num0 (pivot_cell G TR_STATUS_NAME DB_PARTIC_NAME ENDTOENDID p ''Posted''))) idx))]"
        by auto
      show ?thesis
        using nodb True
        by (simp add: extract_debitor_details_def tbl_def [symmetric] ri lc fl at rename_two keys)
           (auto simp: tbl G_def)
    qed
  qed
qed






section \<open>Column names of the creditor aggregate\<close>

lemma rfind_None: "rfind sep s = None \<longleftrightarrow> sep \<notin> set s"
  by (induction s) (auto split: option.splits)

lemma rfind_take:
  "rfind sep s = Some i \<Longrightarrow> take i s = rev (tl (dropWhile (\<lambda>c. c \<noteq> sep) (rev s)))"
proof (induction s arbitrary: i)
  case Nil
  then show ?case by simp
next
  case (Cons c cs)
  show ?case
  proof (cases "rfind sep cs")
    case None
    then have notin: "sep \<notin> set cs" by (simp add: rfind_None)
    from Cons.prems None have c: "c = sep" and i: "i = 0"
      by (auto split: if_splits)
    have "dropWhile (\<lambda>c. c \<noteq> sep) (rev cs @ [sep]) = [sep]"
      using notin by (subst dropWhile_append2) auto
    with c i show ?thesis by simp
  next
    case (Some j)
    with Cons.prems have i: "i = Suc j" by simp
    from Some have "sep \<in> set cs" using rfind_None [of sep cs] by auto
    then obtain x where x: "x \<in> set (rev cs)" "\<not> x \<noteq> sep" by auto
    have d: "dropWhile (\<lambda>c. c \<noteq> sep) (rev cs @ [c]) = dropWhile (\<lambda>c. c \<noteq> sep) (rev cs) @ [c]"
      using x by (simp add: dropWhile_append1)
    have ne: "dropWhile (\<lambda>c. c \<noteq> sep) (rev cs) \<noteq> []"
      using x by (auto simp: dropWhile_eq_Nil_conv)
    from Cons.IH [OF Some] i d ne show ?thesis by simp
  qed
qed

lemma rsplit1_head: "hd (rsplit1 CHR ''.'' m) = spec_strip_qualifier m"
proof (cases "rfind CHR ''.'' m")
  case None
  then have "CHR ''.'' \<notin> set m" using rfind_None [of "CHR ''.''" m] by simp
  with None show ?thesis
    by (simp add: rsplit1_def spec_strip_qualifier_def)
next
  case (Some i)
  then have "CHR ''.'' \<in> set m" using rfind_None [of "CHR ''.''" m] by auto
  with Some rfind_take [OF Some] show ?thesis
    by (simp add: rsplit1_def spec_strip_qualifier_def)
qed

lemma remove_quotes_spec: "remove_quotes s = spec_strip_quotes s"
  by (induction s) (simp_all add: remove_quotes_def)

lemma new_col_name_spec: "new_col_name (s, m) = spec_column_name s m"
  by (auto simp: new_col_name_def spec_column_name_def rsplit1_head remove_quotes_spec Let_def dom_def
      split: option.splits)

lemma new_cols_loop_acc: "new_cols_loop cols acc = acc @ map new_col_name cols"
  by (induction cols arbitrary: acc) auto

text \<open>
  C7. The loop over the pivot's columns gives every column the name the specification
  words: the status label, or nothing, followed by the sub-status label of the stripped
  reject motive, or nothing.
\<close>

theorem derived_column_names:
  "new_cols_loop cols [] = map (\<lambda>(status, motive). spec_column_name status motive) cols"
proof -
  have "map new_col_name cols = map (\<lambda>(status, motive). spec_column_name status motive) cols"
    by (rule map_cong) (auto simp: new_col_name_spec)
  then show ?thesis by (simp add: new_cols_loop_acc)
qed

lemma ex_spec_names:
  "map (\<lambda>(status, motive). spec_column_name status motive)
     [(''CR_PARTIC_NAME'', []), (''Declined'', ''Lack of funds.AM04''), (''Posted'', []),
      (''Held'', ''Won'' @ [CHR 0x27] @ ''t pay.X''),
      (''Declined'', ex_motive_quoted), (''Rejected'', ''a.b.Lack of funds.c''),
      (''Returned'', [CHR 0x27] @ ''Duplication'' @ [CHR 0x27])]
   = [''CR_PARTIC_NAME'', ''Declined Lack of Funds'', ''Posted'', [],
      ''Declined Regulatory requirements are insufficient'', ''Rejected'', ''Returned Duplication'']"
  by code_simp

theorem derived_column_names_witness:
  "new_cols_loop
     [(''CR_PARTIC_NAME'', []), (''Declined'', ''Lack of funds.AM04''), (''Posted'', []),
      (''Held'', ''Won'' @ [CHR 0x27] @ ''t pay.X''),
      (''Declined'', ex_motive_quoted), (''Rejected'', ''a.b.Lack of funds.c''),
      (''Returned'', [CHR 0x27] @ ''Duplication'' @ [CHR 0x27])] []
   = [''CR_PARTIC_NAME'', ''Declined Lack of Funds'', ''Posted'', [],
      ''Declined Regulatory requirements are insufficient'', ''Rejected'', ''Returned Duplication'']"
  using derived_column_names
    [of "[(''CR_PARTIC_NAME'', []), (''Declined'', ''Lack of funds.AM04''), (''Posted'', []),
          (''Held'', ''Won'' @ [CHR 0x27] @ ''t pay.X''),
          (''Declined'', ex_motive_quoted), (''Rejected'', ''a.b.Lack of funds.c''),
          (''Returned'', [CHR 0x27] @ ''Duplication'' @ [CHR 0x27])]"]
    ex_spec_names by simp

section \<open>The creditor aggregate\<close>

lemma STATUSES_label:
  "STATUSES s = Some l \<Longrightarrow> l \<noteq> [] \<and> hd l \<in> {CHR ''D'', CHR ''R'', CHR ''P'', CHR ''C''}"
  unfolding STATUSES_def by (drule map_of_SomeD) auto

lemma SUB_STATUSES_label: "SUB_STATUSES s = Some l \<Longrightarrow> l \<noteq> [] \<and> hd l = CHR '' ''"
  unfolding SUB_STATUSES_def by (drule map_of_SomeD) auto

lemma new_col_name_hd:
  "new_col_name k = [] \<or> hd (new_col_name k) \<in> {CHR ''D'', CHR ''R'', CHR ''P'', CHR ''C'', CHR '' ''}"
proof -
  obtain s m where k: "k = (s, m)" by (cases k)
  show ?thesis
  proof (cases "STATUSES s")
    case None
    then show ?thesis
      using SUB_STATUSES_label [of "spec_strip_quotes (spec_strip_qualifier m)"]
      by (auto simp: k new_col_name_spec spec_column_name_def split: option.splits)
  next
    case (Some l)
    with STATUSES_label [OF Some] show ?thesis
      by (auto simp: k new_col_name_spec spec_column_name_def split: option.splits)
  qed
qed

lemma new_col_name_not_total: "new_col_name k \<noteq> ''Grand Total''"
  using new_col_name_hd [of k] by auto

lemma new_col_name_not_success: "new_col_name k \<noteq> ''Success''"
  using new_col_name_hd [of k] by auto

lemma new_col_name_index: "new_col_name (''CR_PARTIC_NAME'', []) = ''CR_PARTIC_NAME''"
  by code_simp

lemma new_col_name_posted: "new_col_name (s, m) = ''Posted'' \<Longrightarrow> s = ''Posted''"
proof -
  assume a: "new_col_name (s, m) = ''Posted''"
  show ?thesis
  proof (cases "STATUSES s")
    case None
    with a SUB_STATUSES_label [of "spec_strip_quotes (spec_strip_qualifier m)"] show ?thesis
      by (auto simp: new_col_name_spec spec_column_name_def split: option.splits)
  next
    case (Some l)
    then have "(s, l) \<in> set [(''Declined'', ''Declined''), (''Rejected'', ''Rejected''),
        (''Returned'', ''Returned''), (''Posted'', ''Posted''), (''CR_PARTIC_NAME'', ''CR_PARTIC_NAME'')]"
      unfolding STATUSES_def by (rule map_of_SomeD)
    with a Some SUB_STATUSES_label [of "spec_strip_quotes (spec_strip_qualifier m)"] show ?thesis
      by (auto simp: new_col_name_spec spec_column_name_def split: option.splits)
  qed
qed

lemma set_columns_map:
  "map2 (\<lambda>l' (l, c). (l', c)) (map f ks) (map (\<lambda>k. (k, g k)) ks) = map (\<lambda>k. (f k, g k)) ks"
  by (induction ks) auto

lemma numeric_cols_counts:
  "numeric_cols (map (\<lambda>(l, ns). (l, NumericCol (map Some ns))) xs) = map (\<lambda>(l, ns). map Some ns) xs"
  by (induction xs) auto

lemma filter_counts:
  "filter (\<lambda>(l, c). P l) (map (\<lambda>(l, ns). (l, NumericCol (map Some ns))) xs) =
   map (\<lambda>(l, ns). (l, NumericCol (map Some ns))) (filter (\<lambda>(l, ns). P l) xs)"
  by (induction xs) auto

lemma rename_counts:
  "rename [(''CR_PARTIC_NAME'', ''PARTICIPANT_NAME''), (''Posted'', ''Received Posted'')]
     (map (\<lambda>(l, ns). (l, NumericCol (map Some ns))) (filter (\<lambda>(l, ns). l \<noteq> ''Posted'') xs)) =
   map (\<lambda>(l, ns). (if l = ''CR_PARTIC_NAME'' then ''PARTICIPANT_NAME'' else l, NumericCol (map Some ns)))
     (filter (\<lambda>(l, ns). l \<noteq> ''Posted'') xs)"
  by (induction xs) (auto simp: rename_def)

lemma rename_append: "rename m (xs @ ys) = rename m xs @ rename m ys"
  by (simp add: rename_def)

lemma status_columns_labels:
  "(l, ns) \<in> set (status_columns df) \<Longrightarrow> l \<noteq> ''Grand Total'' \<and> l \<noteq> ''Success''"
  by (auto simp: status_columns_def new_col_name_not_total new_col_name_not_success)

lemma status_columns_length:
  "(l, ns) \<in> set (status_columns df) \<Longrightarrow> length ns = length (fst (creditor_pivot df))"
  by (auto simp: status_columns_def creditor_pivot_def pivot_table_shape)

lemma sum_rows:
  "sum_list (map (\<lambda>ns. num0 (ns ! i)) (map (\<lambda>(l, ns). map Some ns) xs)) = (\<Sum>(l, ns) \<leftarrow> xs. ns ! i)"
  if "\<forall>(l, ns) \<in> set xs. i < length ns"
  using that by (induction xs) (auto simp: num0_def)

lemma set_columns_pivot:
  "map2 (\<lambda>l' (l, c). (l', c)) (map f (map fst cols)) (map (\<lambda>(k, ns). (k, h ns)) cols) =
   map (\<lambda>(k, ns). (f k, h ns)) cols"
  by (induction cols) auto

lemma map2_nth:
  "length xs = n \<Longrightarrow> length ys = n \<Longrightarrow> map2 f xs ys = map (\<lambda>i. f (xs ! i) (ys ! i)) [0..<n]"
  by (auto simp: list_eq_iff_nth_eq)

lemma fillna0_pivot:
  "fillna0 (((a, b), ObjectCol (map Str idx)) # map (\<lambda>(k, ns). (k, NumericCol ns)) cols) =
   ((a, b), ObjectCol (map Str idx)) # map (\<lambda>(k, ns). (k, NumericCol (map Some (map num0 ns)))) cols"
proof -
  have "(case n of None \<Rightarrow> Some 0 | Some k \<Rightarrow> Some k) = Some (num0 n)" for n :: "int option"
    by (cases n) (simp_all add: num0_def)
  then show ?thesis
    by (auto simp: fillna0_def fillna0_names)
qed

lemma creditor_steps:
  fixes posted :: "int list" and rest :: "(string \<times> int list) list" and idx :: "string list"
  defines "df3 \<equiv> (''CR_PARTIC_NAME'', ObjectCol (map Str idx)) #
                   map (\<lambda>(l, ns). (l, NumericCol (map Some ns))) rest"
  assumes len: "length posted = length idx"
    and lens: "\<forall>(l, ns) \<in> set rest. length ns = length idx"
    and labs: "\<forall>(l, ns) \<in> set rest. l \<noteq> ''Posted'' \<and> l \<noteq> ''Grand Total'' \<and> l \<noteq> ''Success''"
  shows "(case insert_column 1 ''Posted'' (NumericCol (map Some posted)) df3 of
            Inl e \<Rightarrow> Inl e
          | Inr df4 \<Rightarrow>
              (let df5 = setitem df4 ''Grand Total'' (NumericCol (map Some (sum_axis1 df4)))
               in case success_column df5 of
                    Inl e \<Rightarrow> Inl e
                  | Inr s \<Rightarrow>
                      Inr (rename [(''CR_PARTIC_NAME'', ''PARTICIPANT_NAME''),
                                   (''Posted'', ''Received Posted'')]
                            (setitem df5 ''Success'' s))))
         = Inr (creditor_frame idx posted rest)"
proof -
  define h where "h = (\<lambda>(l :: string, ns :: int list). (l, NumericCol (map Some ns)))"
  define df4 where "df4 = (''CR_PARTIC_NAME'', ObjectCol (map Str idx)) #
                          (''Posted'', NumericCol (map Some posted)) # map h rest"
  define gt where "gt = map (\<lambda>i. row_total posted rest i) [0..<length idx]"
  define df5 where "df5 = df4 @ [(''Grand Total'', NumericCol (map Some gt))]"
  define s where "s = ObjectCol (map (\<lambda>i. Str (success_text (Some (posted ! i)) (Some (row_total posted rest i))))
                   [0..<length idx])"
  have lab3: "labels df3 = ''CR_PARTIC_NAME'' # map fst rest"
    by (simp add: labels_def df3_def comp_def case_prod_unfold)
  have nop: "''Posted'' \<notin> set (labels df3)"
    using labs unfolding lab3 by force
  have ins: "insert_column 1 ''Posted'' (NumericCol (map Some posted)) df3 = Inr df4"
    using nop by (simp add: insert_column_def) (simp add: df3_def df4_def h_def)
  have lab4: "labels df4 = ''CR_PARTIC_NAME'' # ''Posted'' # map fst rest"
    by (simp add: labels_def df4_def h_def comp_def case_prod_unfold)
  have nrows4: "nrows df4 = length idx"
    by (simp add: nrows_def df4_def)
  have nc4: "numeric_cols df4 = map Some posted # map (\<lambda>(l, ns). map Some ns) rest"
    by (simp add: df4_def h_def numeric_cols_counts)
  have sum4: "sum_axis1 df4 = gt"
  proof -
    have "sum_list (map (\<lambda>ns. num0 (ns ! i)) (numeric_cols df4)) = row_total posted rest i"
      if "i < length idx" for i
    proof -
      have "\<forall>(l, ns) \<in> set rest. i < length ns" using lens that by auto
      from sum_rows [OF this] that len show ?thesis
        by (simp add: nc4 row_total_def num0_def)
    qed
    then show ?thesis
      by (simp add: sum_axis1_def nrows4 gt_def)
  qed
  have nogt: "''Grand Total'' \<notin> set (labels df4)"
    using labs unfolding lab4 by force
  have set5: "setitem df4 ''Grand Total'' (NumericCol (map Some (sum_axis1 df4))) = df5"
    using nogt by (simp add: setitem_def sum4 df5_def)
  have frest_p: "filter (\<lambda>(l', c). l' = ''Posted'') (map h rest) = []"
    using labs by (auto simp: filter_empty_conv h_def)
  have frest_g: "filter (\<lambda>(l', c). l' = ''Grand Total'') (map h rest) = []"
    using labs by (auto simp: filter_empty_conv h_def)
  have gp: "getitem df5 ''Posted'' = [NumericCol (map Some posted)]"
    by (simp add: getitem_def df5_def df4_def frest_p)
  have gg: "getitem df5 ''Grand Total'' = [NumericCol (map Some gt)]"
    by (simp add: getitem_def df5_def df4_def frest_g)
  have lgt: "length gt = length idx" by (simp add: gt_def)
  have m2: "map2 (\<lambda>a b. Str (success_text a b)) (map Some posted) (map Some gt) =
            map (\<lambda>i. Str (success_text (Some (posted ! i)) (Some (row_total posted rest i)))) [0..<length idx]"
    using map2_nth [of "map Some posted" "length idx" "map Some gt" "\<lambda>a b. Str (success_text a b)"] len lgt
    by (simp add: gt_def)
  have sc: "success_column df5 = Inr s"
    by (simp add: success_column_def gp gg m2 s_def)
  have nos: "''Success'' \<notin> set (labels df5)"
    using labs lab4 by (force simp: df5_def labels_def)
  have set6: "setitem df5 ''Success'' s = df5 @ [(''Success'', s)]"
    using nos by (simp add: setitem_def)
  have ren_rest: "rename [(''CR_PARTIC_NAME'', ''PARTICIPANT_NAME''), (''Posted'', ''Received Posted'')] (map h rest)
      = map (\<lambda>(l, ns). (if l = ''CR_PARTIC_NAME'' then ''PARTICIPANT_NAME'' else l, NumericCol (map Some ns))) rest"
    using labs by (induction rest) (auto simp: rename_def h_def)
  have ren: "rename [(''CR_PARTIC_NAME'', ''PARTICIPANT_NAME''), (''Posted'', ''Received Posted'')]
               (df5 @ [(''Success'', s)]) = creditor_frame idx posted rest"
    unfolding df5_def df4_def creditor_frame_def
    using ren_rest by (simp add: rename_def gt_def s_def)
  show ?thesis
    unfolding ins by (simp add: set5 sc set6 ren Let_def)
qed

lemma creditor_result:
  "extract_creditor_details df =
     (if (''CR_PARTIC_NAME'', []) \<in> set (map fst (snd (creditor_pivot df)))
      then Inl (ValueError ''cannot insert, already exists'')
      else case filter (\<lambda>(l, ns). l = ''Posted'') (status_columns df) of
             [] \<Rightarrow> Inl (KeyError [''Posted''])
           | [(l, posted)] \<Rightarrow>
               Inr (creditor_frame (fst (creditor_pivot df)) posted
                     (filter (\<lambda>(l, ns). l \<noteq> ''Posted'') (status_columns df)))
           | _ \<Rightarrow> Inl (AttributeError ''name''))"
proof -
  define idx where "idx = fst (creditor_pivot df)"
  define cols where "cols = snd (creditor_pivot df)"
  define sc where "sc = status_columns df"
  define h where "h = (\<lambda>(l :: string, ns :: int list). (l, NumericCol (map Some ns)))"
  have tbl: "pivot_table df status_motive CR_PARTIC_NAME ENDTOENDID = (idx, cols)"
    by (simp add: idx_def cols_def creditor_pivot_def)
  have sc: "sc = map (\<lambda>(k, ns). (new_col_name k, map num0 ns)) cols"
    by (simp add: sc_def status_columns_def cols_def)
  show ?thesis
  proof (cases "(''CR_PARTIC_NAME'', []) \<in> set (map fst cols)")
    case True
    then show ?thesis
      by (simp add: extract_creditor_details_def tbl reset_index_def cols_def [symmetric])
  next
    case False
    define df0 where "df0 = ((''CR_PARTIC_NAME'', []), ObjectCol (map Str idx)) #
                            map (\<lambda>(k, ns). (k, NumericCol ns)) cols"
    define df1 where "df1 = ((''CR_PARTIC_NAME'', []), ObjectCol (map Str idx)) #
                            map (\<lambda>(k, ns). (k, NumericCol (map Some (map num0 ns)))) cols"
    define df2 where "df2 = (''CR_PARTIC_NAME'', ObjectCol (map Str idx)) # map h sc"
    define df3 where "df3 = (''CR_PARTIC_NAME'', ObjectCol (map Str idx)) #
                            map h (filter (\<lambda>(l, ns). l \<noteq> ''Posted'') sc)"
    have ri: "reset_index (''CR_PARTIC_NAME'', []) (idx, cols) = Inr df0"
      using False by (simp add: reset_index_def df0_def)
    have f0: "fillna0 df0 = df1"
      unfolding df0_def df1_def by (rule fillna0_pivot)
    have lab: "labels df1 = (''CR_PARTIC_NAME'', []) # map fst cols"
      by (simp add: labels_def df1_def comp_def case_prod_unfold)
    have nc: "new_cols_loop (labels df1) [] = ''CR_PARTIC_NAME'' # map new_col_name (map fst cols)"
      by (simp add: lab new_cols_loop_acc new_col_name_index)
    have "map2 (\<lambda>l' (l, c). (l', c)) (map new_col_name (map fst cols))
            (map (\<lambda>(k, ns). (k, NumericCol (map Some (map num0 ns)))) cols) = map h sc"
      unfolding set_columns_pivot by (simp add: sc h_def comp_def case_prod_unfold)
    then have "set_columns df1 (''CR_PARTIC_NAME'' # map new_col_name (map fst cols)) = df2"
      unfolding set_columns_def df1_def df2_def by simp
    then have s2: "set_columns df1 (new_cols_loop (labels df1) []) = df2"
      by (simp only: nc)
    have hit: "filter (\<lambda>(l, c). l = ''Posted'') df2 = map h (filter (\<lambda>(l, ns). l = ''Posted'') sc)"
      using filter_counts [of "\<lambda>l. l = ''Posted''" sc] by (simp add: df2_def h_def)
    have rst: "filter (\<lambda>(l, c). l \<noteq> ''Posted'') df2 = df3"
      using filter_counts [of "\<lambda>l. l \<noteq> ''Posted''" sc] by (simp add: df2_def df3_def h_def)
    have pop: "pop df2 ''Posted'' =
                 (if filter (\<lambda>(l, ns). l = ''Posted'') sc = [] then Inl (KeyError [''Posted''])
                  else Inr (map snd (map h (filter (\<lambda>(l, ns). l = ''Posted'') sc)), df3))"
      by (simp add: pop_def hit rst Let_def)
    have main: "extract_creditor_details df =
        (case pop df2 ''Posted'' of
           Inl e \<Rightarrow> Inl e
         | Inr (col_posted, df3) \<Rightarrow>
             (case col_posted of
                [c] \<Rightarrow>
                  (case insert_column 1 ''Posted'' c df3 of
                     Inl e \<Rightarrow> Inl e
                   | Inr df4 \<Rightarrow>
                       (let df5 = setitem df4 ''Grand Total'' (NumericCol (map Some (sum_axis1 df4)))
                        in case success_column df5 of
                             Inl e \<Rightarrow> Inl e
                           | Inr s \<Rightarrow>
                               Inr (rename [(''CR_PARTIC_NAME'', ''PARTICIPANT_NAME''),
                                            (''Posted'', ''Received Posted'')]
                                     (setitem df5 ''Success'' s))))
              | _ \<Rightarrow> Inl (AttributeError ''name'')))"
      unfolding extract_creditor_details_def tbl ri by (simp add: Let_def f0 s2)
    show ?thesis
    proof (cases "filter (\<lambda>(l, ns). l = ''Posted'') sc")
      case Nil
      with False show ?thesis
        unfolding main pop by (simp add: cols_def [symmetric] sc_def [symmetric])
    next
      case (Cons a as)
      obtain l posted where a: "a = (l, posted)" by (cases a)
      show ?thesis
      proof (cases as)
        case (Cons b bs)
        with \<open>filter (\<lambda>(l, ns). l = ''Posted'') sc = a # as\<close> False show ?thesis
          unfolding main pop
          by (simp add: cols_def [symmetric] sc_def [symmetric] a h_def split: prod.splits)
      next
        case Nil
        with \<open>filter (\<lambda>(l, ns). l = ''Posted'') sc = a # as\<close> a
        have one: "filter (\<lambda>(l, ns). l = ''Posted'') sc = [(l, posted)]" by simp
        then have "(l, posted) \<in> set (filter (\<lambda>(l, ns). l = ''Posted'') sc)" by simp
        then have mem: "(l, posted) \<in> set sc" by auto
        have len: "length posted = length idx"
          using status_columns_length [of l posted df] mem by (simp add: sc_def idx_def)
        have lens: "\<forall>(l, ns) \<in> set (filter (\<lambda>(l, ns). l \<noteq> ''Posted'') sc). length ns = length idx"
          using status_columns_length [of _ _ df] by (auto simp: sc_def idx_def)
        have labs: "\<forall>(l, ns) \<in> set (filter (\<lambda>(l, ns). l \<noteq> ''Posted'') sc).
                      l \<noteq> ''Posted'' \<and> l \<noteq> ''Grand Total'' \<and> l \<noteq> ''Success''"
          using status_columns_labels [of _ _ df] by (auto simp: sc_def)
        have steps: "(case insert_column 1 ''Posted'' (NumericCol (map Some posted)) df3 of
            Inl e \<Rightarrow> Inl e
          | Inr df4 \<Rightarrow>
              (let df5 = setitem df4 ''Grand Total'' (NumericCol (map Some (sum_axis1 df4)))
               in case success_column df5 of
                    Inl e \<Rightarrow> Inl e
                  | Inr s \<Rightarrow>
                      Inr (rename [(''CR_PARTIC_NAME'', ''PARTICIPANT_NAME''),
                                   (''Posted'', ''Received Posted'')]
                            (setitem df5 ''Success'' s))))
         = Inr (creditor_frame idx posted (filter (\<lambda>(l, ns). l \<noteq> ''Posted'') sc))"
          using creditor_steps [OF len lens labs] unfolding df3_def h_def .
        from False one steps show ?thesis
          unfolding main pop
          by (simp add: cols_def [symmetric] sc_def [symmetric] idx_def [symmetric] h_def)
      qed
    qed
  qed
qed

section \<open>A corpus without a posted transaction\<close>

lemma debtor_keys_filled:
  assumes "\<And>t. t \<in> set corpus \<Longrightarrow> filled t"
  shows "set (map fst (snd (pivot_table corpus TR_STATUS_NAME DB_PARTIC_NAME ENDTOENDID))) =
         {s. \<exists>t \<in> set corpus. TR_STATUS_NAME t = Some s}"
  unfolding pivot_keys_set using assms by (auto simp: filled_def)

lemma creditor_keys_filled:
  assumes "\<And>t. t \<in> set corpus \<Longrightarrow> filled t"
  shows "set (map fst (snd (creditor_pivot corpus))) =
         {(s, m). \<exists>t \<in> set corpus. TR_STATUS_NAME t = Some s \<and> REJECT_MOTIVE_DESCRITION t = Some m}"
proof -
  have "status_motive t = Some (s, m) \<longleftrightarrow> TR_STATUS_NAME t = Some s \<and> REJECT_MOTIVE_DESCRITION t = Some m"
    for t s m
    by (auto simp: status_motive_def split: option.splits)
  then show ?thesis
    unfolding creditor_pivot_def pivot_keys_set using assms by (auto simp: filled_def)
qed

lemma no_posted_column:
  assumes "\<forall>k \<in> set (map fst (snd (creditor_pivot df))). fst k \<noteq> ''Posted''"
  shows "filter (\<lambda>(l, ns). l = ''Posted'') (status_columns df) = []"
proof -
  have "l \<noteq> ''Posted''" if "(l, ns) \<in> set (status_columns df)" for l ns
  proof -
    from that obtain k cs where k: "(k, cs) \<in> set (snd (creditor_pivot df))" and l: "l = new_col_name k"
      by (auto simp: status_columns_def)
    from k assms have "fst k \<noteq> ''Posted''" by force
    with new_col_name_posted [of "fst k" "snd k"] l show ?thesis by auto
  qed
  then show ?thesis by (auto simp: filter_empty_conv)
qed

text \<open>
  C10, as the claim states it, fails: on the corpus of one row whose status is the text
  \<open>DB_PARTIC_NAME\<close> the debtor aggregator does not reach the selection of \<open>Posted\<close>;
  \<open>reset_index\<close> raises \<open>ValueError\<close> before.
\<close>

theorem no_posted_key_error_counterexample:
  "merge_files [''/in/odd.xlsx'' \<mapsto> ex_sheet_odd] ''/in'' [''/in/odd.xlsx''] = Inr ex_corpus_odd
   \<and> ex_corpus_odd \<noteq> []
   \<and> map TR_STATUS_NAME ex_corpus_odd = [Some ''DB_PARTIC_NAME'']
   \<and> extract_debitor_details ex_corpus_odd = Inl (ValueError ''cannot insert, already exists'')"
proof -
  have a: "merge_files [''/in/odd.xlsx'' \<mapsto> ex_sheet_odd] ''/in'' [''/in/odd.xlsx''] = Inr ex_corpus_odd"
    by (simp add: merge_files_def join_def filter_file_def missing_columns_def required_columns_def
        ex_sheet_odd_def project_def lookup_cell_def keep_row_def fillna_empty_def fill_cell_def
        ex_corpus_odd_def mk_txn_def)
  have b: "extract_debitor_details ex_corpus_odd = Inl (ValueError ''cannot insert, already exists'')"
    by code_simp
  from a b show ?thesis by (simp add: ex_corpus_odd_def mk_txn_def)
qed

text \<open>
  C10, amended. On a non-empty corpus of \<open>merge_files\<close> without a row of status
  \<open>Posted\<close> neither aggregator returns an aggregate. Each raises \<open>KeyError\<close> for the
  label \<open>Posted\<close>, unless \<open>reset_index\<close> has raised \<open>ValueError\<close> before: in the
  debtor aggregator when a status is the text \<open>DB_PARTIC_NAME\<close>, in the creditor
  aggregator when a row has the status \<open>CR_PARTIC_NAME\<close> and an empty reject motive.
\<close>

theorem no_posted_aggregators_fail:
  assumes "merge_files fs source_path files = Inr corpus"
    and "corpus \<noteq> []"
    and "\<forall>t \<in> set corpus. TR_STATUS_NAME t \<noteq> Some ''Posted''"
  shows "extract_debitor_details corpus =
           (if \<exists>t \<in> set corpus. TR_STATUS_NAME t = Some ''DB_PARTIC_NAME''
            then Inl (ValueError ''cannot insert, already exists'')
            else Inl (KeyError [''Posted'']))
         \<and> extract_creditor_details corpus =
           (if \<exists>t \<in> set corpus. TR_STATUS_NAME t = Some ''CR_PARTIC_NAME'' \<and> REJECT_MOTIVE_DESCRITION t = Some []
            then Inl (ValueError ''cannot insert, already exists'')
            else Inl (KeyError [''Posted'']))"
proof -
  have fl: "\<And>t. t \<in> set corpus \<Longrightarrow> filled t"
    using merge_files_filled [OF assms(1)] .
  have dk: "set (map fst (snd (pivot_table corpus TR_STATUS_NAME DB_PARTIC_NAME ENDTOENDID))) =
         {s. \<exists>t \<in> set corpus. TR_STATUS_NAME t = Some s}"
    using debtor_keys_filled [OF fl] .
  have ck: "set (map fst (snd (creditor_pivot corpus))) =
         {(s, m). \<exists>t \<in> set corpus. TR_STATUS_NAME t = Some s \<and> REJECT_MOTIVE_DESCRITION t = Some m}"
    using creditor_keys_filled [OF fl] .
  have d: "extract_debitor_details corpus =
           (if \<exists>t \<in> set corpus. TR_STATUS_NAME t = Some ''DB_PARTIC_NAME''
            then Inl (ValueError ''cannot insert, already exists'')
            else Inl (KeyError [''Posted'']))"
    unfolding debtor_result dk using assms(3) by auto
  have "\<forall>k \<in> set (map fst (snd (creditor_pivot corpus))). fst k \<noteq> ''Posted''"
    unfolding ck using assms(3) by auto
  from no_posted_column [OF this]
  have c: "extract_creditor_details corpus =
           (if \<exists>t \<in> set corpus. TR_STATUS_NAME t = Some ''CR_PARTIC_NAME'' \<and> REJECT_MOTIVE_DESCRITION t = Some []
            then Inl (ValueError ''cannot insert, already exists'')
            else Inl (KeyError [''Posted'']))"
    unfolding creditor_result ck by auto
  from d c show ?thesis by simp
qed

theorem no_posted_aggregators_fail_witness:
  "merge_files [''/in/d.xlsx'' \<mapsto> ex_sheet_declined] ''/in'' [''/in/d.xlsx''] = Inr ex_corpus_declined
   \<and> ex_corpus_declined \<noteq> []
   \<and> map TR_STATUS_NAME ex_corpus_declined = [Some ''Declined'']
   \<and> extract_debitor_details ex_corpus_declined = Inl (KeyError [''Posted''])
   \<and> extract_creditor_details ex_corpus_declined = Inl (KeyError [''Posted''])"
proof -
  have a: "merge_files [''/in/d.xlsx'' \<mapsto> ex_sheet_declined] ''/in'' [''/in/d.xlsx''] = Inr ex_corpus_declined"
    by (simp add: merge_files_def join_def filter_file_def missing_columns_def required_columns_def
        ex_sheet_declined_def project_def lookup_cell_def keep_row_def fillna_empty_def fill_cell_def
        ex_corpus_declined_def mk_txn_def)
  have b: "ex_corpus_declined \<noteq> []" by (simp add: ex_corpus_declined_def)
  have c: "\<forall>t \<in> set ex_corpus_declined. TR_STATUS_NAME t \<noteq> Some ''Posted''"
    by (simp add: ex_corpus_declined_def mk_txn_def)
  show ?thesis
    using no_posted_aggregators_fail [OF a b c] a b c
    by (simp add: ex_corpus_declined_def mk_txn_def)
qed

section \<open>Grand totals of the creditor aggregate\<close>

lemma creditor_frame_of_result:
  assumes "extract_creditor_details df = Inr out"
  obtains posted where
    "filter (\<lambda>(l, ns). l = ''Posted'') (status_columns df) = [(''Posted'', posted)]"
    "out = creditor_frame (fst (creditor_pivot df)) posted
             (filter (\<lambda>(l, ns). l \<noteq> ''Posted'') (status_columns df))"
proof -
  from assms obtain l posted where
    h: "filter (\<lambda>(l, ns). l = ''Posted'') (status_columns df) = [(l, posted)]" and
    o: "out = creditor_frame (fst (creditor_pivot df)) posted
             (filter (\<lambda>(l, ns). l \<noteq> ''Posted'') (status_columns df))"
    unfolding creditor_result by (auto split: if_splits list.splits)
  from h have "(l, posted) \<in> set (filter (\<lambda>(l, ns). l = ''Posted'') (status_columns df))" by simp
  then have "l = ''Posted''" by auto
  with h o that show ?thesis by simp
qed

lemma sum_list_partition:
  fixes f :: "'a \<Rightarrow> int"
  shows "sum_list (map f xs) = sum_list (map f (filter P xs)) + sum_list (map f (filter (\<lambda>x. \<not> P x) xs))"
  by (induction xs) auto

lemma row_total_all:
  assumes "filter (\<lambda>(l, ns). l = ''Posted'') sc = [(''Posted'', posted)]"
  shows "row_total posted (filter (\<lambda>(l, ns). l \<noteq> ''Posted'') sc) i = (\<Sum>(l, ns) \<leftarrow> sc. ns ! i)"
proof -
  have neg: "(\<lambda>x. \<not> (case x of (l, ns) \<Rightarrow> l = ''Posted'')) = (\<lambda>(l, ns). l \<noteq> ''Posted'')"
    by auto
  show ?thesis
    using sum_list_partition [of "\<lambda>(l, ns). ns ! i" sc "\<lambda>(l, ns). l = ''Posted''"]
    by (simp add: assms neg row_total_def)
qed

lemma mset_partition_posted:
  assumes "filter (\<lambda>(l, ns). l = ''Posted'') sc = [(''Posted'', posted)]"
  shows "mset (posted # map snd (filter (\<lambda>(l, ns). l \<noteq> ''Posted'') sc)) = mset (map snd sc)"
proof -
  have "mset (map snd xs) =
        mset (map snd (filter (\<lambda>(l, ns). l = ''Posted'') xs)) +
        mset (map snd (filter (\<lambda>(l, ns). l \<noteq> ''Posted'') xs))"
    for xs :: "(string \<times> 'a) list"
    by (induction xs) auto
  from this [of sc] show ?thesis
    by (simp add: assms)
qed

text \<open>
  C2. In every creditor aggregate the \<open>Grand Total\<close> of a row is the sum of the row's
  count columns, the \<open>Posted\<close> count among them; the count columns are the columns of the
  pivot, one for each pair of status and reject motive, with a missing count as 0.
\<close>

theorem creditor_grand_total:
  assumes "extract_creditor_details df = Inr out"
  shows "\<exists>names posted rest gt succ.
           out = (''PARTICIPANT_NAME'', ObjectCol (map Str names)) #
                 (''Received Posted'', NumericCol (map Some posted)) #
                 map (\<lambda>(l, ns). (l, NumericCol (map Some ns))) rest @
                 [(''Grand Total'', NumericCol (map Some gt)), (''Success'', ObjectCol succ)]
           \<and> mset (posted # map snd rest) = mset (map (\<lambda>(k, ns). map num0 ns) (snd (creditor_pivot df)))
           \<and> length gt = length names
           \<and> (\<forall>i < length names. gt ! i = posted ! i + (\<Sum>(l, ns) \<leftarrow> rest. ns ! i))"
proof -
  from creditor_frame_of_result [OF assms] obtain posted where
    h: "filter (\<lambda>(l, ns). l = ''Posted'') (status_columns df) = [(''Posted'', posted)]" and
    o: "out = creditor_frame (fst (creditor_pivot df)) posted
             (filter (\<lambda>(l, ns). l \<noteq> ''Posted'') (status_columns df))"
    by blast
  define names where "names = fst (creditor_pivot df)"
  define rest0 where "rest0 = filter (\<lambda>(l, ns). l \<noteq> ''Posted'') (status_columns df)"
  define rest where "rest = map (\<lambda>(l, ns). (if l = ''CR_PARTIC_NAME'' then ''PARTICIPANT_NAME'' else l, ns)) rest0"
  define gt where "gt = map (\<lambda>i. row_total posted rest0 i) [0..<length names]"
  define succ where "succ = map (\<lambda>i. Str (success_text (Some (posted ! i)) (Some (row_total posted rest0 i))))
                   [0..<length names]"
  have snd_rest: "map snd rest = map snd rest0"
    by (simp add: rest_def comp_def case_prod_unfold)
  have sum_rest: "(\<Sum>(l, ns) \<leftarrow> rest. ns ! i) = (\<Sum>(l, ns) \<leftarrow> rest0. ns ! i)" for i
    by (simp add: rest_def comp_def case_prod_unfold)
  have shape: "out = (''PARTICIPANT_NAME'', ObjectCol (map Str names)) #
                 (''Received Posted'', NumericCol (map Some posted)) #
                 map (\<lambda>(l, ns). (l, NumericCol (map Some ns))) rest @
                 [(''Grand Total'', NumericCol (map Some gt)), (''Success'', ObjectCol succ)]"
    unfolding o creditor_frame_def
    by (simp add: names_def rest0_def rest_def gt_def succ_def comp_def case_prod_unfold)
  have "map snd (status_columns df) = map (\<lambda>(k, ns). map num0 ns) (snd (creditor_pivot df))"
    by (simp add: status_columns_def comp_def case_prod_unfold)
  with mset_partition_posted [OF h]
  have ms: "mset (posted # map snd rest) = mset (map (\<lambda>(k, ns). map num0 ns) (snd (creditor_pivot df)))"
    by (simp add: snd_rest rest0_def)
  have len: "length gt = length names" by (simp add: gt_def)
  have tot: "\<forall>i < length names. gt ! i = posted ! i + (\<Sum>(l, ns) \<leftarrow> rest. ns ! i)"
    by (simp add: gt_def row_total_def sum_rest)
  show ?thesis
    by (intro exI conjI) (rule shape, rule ms, rule len, rule tot)
qed

lemma ex_pivot:
  "creditor_pivot ex_corpus =
     ([''Y'', ''Z''],
      [((''Declined'', ''Lack of funds.AM04''), [None, Some 1]), ((''Posted'', []), [Some 3, None])])"
  by code_simp

lemma ex_names:
  "new_col_name (''Declined'', ''Lack of funds.AM04'') = ''Declined Lack of Funds''"
  "new_col_name (''Posted'', []) = ''Posted''"
  by code_simp+

lemma ex_status_columns:
  "status_columns ex_corpus = [(''Declined Lack of Funds'', [0, 1]), (''Posted'', [3, 0])]"
  by (simp add: status_columns_def ex_pivot ex_names num0_def)

lemma ex_success:
  "success_text (Some 3) (Some 3) = ''100.00%''"
  "success_text (Some 0) (Some 1) = ''0.00%''"
  by code_simp+

lemma ex_creditor:
  "extract_creditor_details ex_corpus =
     Inr [(''PARTICIPANT_NAME'', ObjectCol [Str ''Y'', Str ''Z'']),
          (''Received Posted'', NumericCol [Some 3, Some 0]),
          (''Declined Lack of Funds'', NumericCol [Some 0, Some 1]),
          (''Grand Total'', NumericCol [Some 3, Some 1]),
          (''Success'', ObjectCol [Str ''100.00%'', Str ''0.00%''])]"
  unfolding creditor_result
  by (simp add: ex_pivot ex_status_columns creditor_frame_def row_total_def ex_success upt_rec)

theorem creditor_grand_total_witness:
  "extract_creditor_details ex_corpus =
     Inr [(''PARTICIPANT_NAME'', ObjectCol [Str ''Y'', Str ''Z'']),
          (''Received Posted'', NumericCol [Some 3, Some 0]),
          (''Declined Lack of Funds'', NumericCol [Some 0, Some 1]),
          (''Grand Total'', NumericCol [Some 3, Some 1]),
          (''Success'', ObjectCol [Str ''100.00%'', Str ''0.00%''])]
   \<and> (\<exists>names posted rest gt succ.
         [(''PARTICIPANT_NAME'', ObjectCol [Str ''Y'', Str ''Z'']),
          (''Received Posted'', NumericCol [Some 3, Some 0]),
          (''Declined Lack of Funds'', NumericCol [Some 0, Some 1]),
          (''Grand Total'', NumericCol [Some 3, Some 1]),
          (''Success'', ObjectCol [Str ''100.00%'', Str ''0.00%''])]
         = (''PARTICIPANT_NAME'', ObjectCol (map Str names)) #
           (''Received Posted'', NumericCol (map Some posted)) #
           map (\<lambda>(l, ns). (l, NumericCol (map Some ns))) rest @
           [(''Grand Total'', NumericCol (map Some gt)), (''Success'', ObjectCol succ)]
         \<and> mset (posted # map snd rest) = mset (map (\<lambda>(k, ns). map num0 ns) (snd (creditor_pivot ex_corpus)))
         \<and> length gt = length names
         \<and> (\<forall>i < length names. gt ! i = posted ! i + (\<Sum>(l, ns) \<leftarrow> rest. ns ! i)))"
  by (rule conjI [OF ex_creditor creditor_grand_total [OF ex_creditor]])

section \<open>Every creditor row counts a transaction\<close>

lemma sum_indicator:
  "distinct ks \<Longrightarrow>
   (\<Sum>k \<leftarrow> ks. if y = Some k then (1 :: int) else 0) = (if \<exists>k \<in> set ks. y = Some k then 1 else 0)"
  by (induction ks) auto

lemma count_by_key:
  assumes "distinct ks" and "\<forall>t \<in> set xs. Q t \<longrightarrow> (\<exists>k \<in> set ks. g t = Some k)"
  shows "(\<Sum>k \<leftarrow> ks. int (length (filter (\<lambda>t. Q t \<and> g t = Some k) xs))) = int (length (filter Q xs))"
  using assms(2)
proof (induction xs)
  case Nil
  then show ?case by simp
next
  case (Cons x xs)
  have split: "int (length (filter (\<lambda>t. Q t \<and> g t = Some k) (x # xs))) =
               (if Q x \<and> g x = Some k then 1 else 0) + int (length (filter (\<lambda>t. Q t \<and> g t = Some k) xs))" for k
    by simp
  have ind: "(\<Sum>k \<leftarrow> ks. if Q x \<and> g x = Some k then (1 :: int) else 0) = (if Q x then 1 else 0)"
  proof (cases "Q x")
    case True
    with Cons.prems have "\<exists>k \<in> set ks. g x = Some k" by simp
    with True sum_indicator [OF assms(1), of "g x"] show ?thesis by simp
  next
    case False
    then show ?thesis by simp
  qed
  have "(\<Sum>k \<leftarrow> ks. int (length (filter (\<lambda>t. Q t \<and> g t = Some k) (x # xs)))) =
        (\<Sum>k \<leftarrow> ks. if Q x \<and> g x = Some k then (1 :: int) else 0) +
        (\<Sum>k \<leftarrow> ks. int (length (filter (\<lambda>t. Q t \<and> g t = Some k) xs)))"
    unfolding split by (simp add: sum_list_addf)
  also have "\<dots> = (if Q x then 1 else 0) + int (length (filter Q xs))"
    using Cons.IH Cons.prems ind by simp
  finally show ?case by simp
qed

lemma status_columns_row_sum:
  assumes "i < length (fst (creditor_pivot df))"
  shows "(\<Sum>(l, ns) \<leftarrow> status_columns df. ns ! i) =
         (\<Sum>k \<leftarrow> map fst (snd (creditor_pivot df)).
            num0 (pivot_cell (filter (\<lambda>t. CR_PARTIC_NAME t \<noteq> None \<and> status_motive t \<noteq> None) df)
                    status_motive CR_PARTIC_NAME ENDTOENDID (fst (creditor_pivot df) ! i) k))"
  using assms
  by (simp add: status_columns_def creditor_pivot_def pivot_table_shape comp_def)

lemma creditor_frame_total:
  assumes "\<forall>(l, ns) \<in> set rest. l \<noteq> ''Grand Total''"
  shows "getitem (creditor_frame names posted rest) ''Grand Total'' =
         [NumericCol (map (\<lambda>i. Some (row_total posted rest i)) [0..<length names])]"
proof -
  have "filter (\<lambda>(l', c). l' = ''Grand Total'')
          (map (\<lambda>(l, ns). (if l = ''CR_PARTIC_NAME'' then ''PARTICIPANT_NAME'' else l, NumericCol (map Some ns))) rest) = []"
    using assms by (auto simp: filter_empty_conv split: if_splits)
  then show ?thesis
    by (simp add: getitem_def creditor_frame_def)
qed

text \<open>
  C9. For a corpus built by \<open>merge_files\<close>, the \<open>Grand Total\<close> of every row of the
  creditor aggregate is the number of corpus rows of that creditor, and at least 1: the
  division for \<open>Success\<close> never divides by zero.
\<close>

theorem creditor_grand_total_positive:
  assumes "merge_files fs source_path files = Inr corpus"
    and "extract_creditor_details corpus = Inr out"
  shows "\<exists>names gt.
           hd out = (''PARTICIPANT_NAME'', ObjectCol (map Str names))
           \<and> getitem out ''Grand Total'' = [NumericCol (map Some gt)]
           \<and> length gt = length names
           \<and> (\<forall>i < length names.
                 gt ! i = int (length (filter (\<lambda>t. CR_PARTIC_NAME t = Some (names ! i)) corpus))
                 \<and> 1 \<le> gt ! i)"
proof -
  from creditor_frame_of_result [OF assms(2)] obtain posted where
    h: "filter (\<lambda>(l, ns). l = ''Posted'') (status_columns corpus) = [(''Posted'', posted)]" and
    o: "out = creditor_frame (fst (creditor_pivot corpus)) posted
             (filter (\<lambda>(l, ns). l \<noteq> ''Posted'') (status_columns corpus))"
    by blast
  define names where "names = fst (creditor_pivot corpus)"
  define keys where "keys = map fst (snd (creditor_pivot corpus))"
  define rest where "rest = filter (\<lambda>(l, ns). l \<noteq> ''Posted'') (status_columns corpus)"
  define gt where "gt = map (\<lambda>i. row_total posted rest i) [0..<length names]"
  have fl: "\<And>t. t \<in> set corpus \<Longrightarrow> filled t"
    using merge_files_filled [OF assms(1)] .
  have sm: "status_motive t \<noteq> None" if "t \<in> set corpus" for t
    using fl [OF that] by (auto simp: status_motive_def filled_def split: option.splits)
  have hd: "hd out = (''PARTICIPANT_NAME'', ObjectCol (map Str names))"
    by (simp add: o creditor_frame_def names_def)
  have "\<forall>(l, ns) \<in> set rest. l \<noteq> ''Grand Total''"
    using status_columns_labels [of _ _ corpus] by (auto simp: rest_def)
  from creditor_frame_total [OF this]
  have gi: "getitem out ''Grand Total'' = [NumericCol (map Some gt)]"
    by (simp add: o names_def rest_def gt_def comp_def)
  have len: "length gt = length names" by (simp add: gt_def)
  have dk: "distinct keys"
    unfolding keys_def creditor_pivot_def by (rule pivot_keys_distinct)
  have ks: "set keys = {k. \<exists>t \<in> set corpus. status_motive t = Some k \<and> CR_PARTIC_NAME t \<noteq> None}"
    unfolding keys_def creditor_pivot_def by (rule pivot_keys_set)
  have ns: "set names = {p. \<exists>t \<in> set corpus. CR_PARTIC_NAME t = Some p \<and> status_motive t \<noteq> None}"
    unfolding names_def creditor_pivot_def by (rule pivot_index_set)
  have row: "gt ! i = int (length (filter (\<lambda>t. CR_PARTIC_NAME t = Some (names ! i)) corpus)) \<and> 1 \<le> gt ! i"
    if i: "i < length names" for i
  proof -
    define p where "p = names ! i"
    have cell: "num0 (pivot_cell (filter (\<lambda>t. CR_PARTIC_NAME t \<noteq> None \<and> status_motive t \<noteq> None) corpus)
                    status_motive CR_PARTIC_NAME ENDTOENDID p k) =
                int (length (filter (\<lambda>t. CR_PARTIC_NAME t = Some p \<and> status_motive t = Some k) corpus))" for k
    proof -
      have same: "filter (\<lambda>t. CR_PARTIC_NAME t = Some p \<and> status_motive t = Some k \<and> ENDTOENDID t \<noteq> None) corpus
                = filter (\<lambda>t. CR_PARTIC_NAME t = Some p \<and> status_motive t = Some k) corpus"
        by (rule filter_cong) (use fl in \<open>auto simp: filled_def\<close>)
      show ?thesis
      proof (cases "\<exists>t \<in> set corpus. CR_PARTIC_NAME t = Some p \<and> status_motive t = Some k")
        case True
        then show ?thesis
          using same unfolding pivot_cell_grouped by (simp add: num0_def)
      next
        case False
        then have "filter (\<lambda>t. CR_PARTIC_NAME t = Some p \<and> status_motive t = Some k) corpus = []"
          by (auto simp: filter_empty_conv)
        with False show ?thesis
          unfolding pivot_cell_grouped by (auto simp: num0_def)
      qed
    qed
    have "gt ! i = row_total posted rest i"
      using i by (simp add: gt_def)
    also have "\<dots> = (\<Sum>(l, ns) \<leftarrow> status_columns corpus. ns ! i)"
      unfolding rest_def by (rule row_total_all [OF h])
    also have "\<dots> = (\<Sum>k \<leftarrow> keys. num0 (pivot_cell (filter (\<lambda>t. CR_PARTIC_NAME t \<noteq> None \<and> status_motive t \<noteq> None) corpus)
                    status_motive CR_PARTIC_NAME ENDTOENDID p k))"
      using status_columns_row_sum [of i corpus] i by (simp add: names_def keys_def p_def)
    also have "\<dots> = (\<Sum>k \<leftarrow> keys. int (length (filter (\<lambda>t. CR_PARTIC_NAME t = Some p \<and> status_motive t = Some k) corpus)))"
      by (simp only: cell)
    also have "\<dots> = int (length (filter (\<lambda>t. CR_PARTIC_NAME t = Some p) corpus))"
    proof (rule count_by_key [OF dk])
      show "\<forall>t \<in> set corpus. CR_PARTIC_NAME t = Some p \<longrightarrow> (\<exists>k \<in> set keys. status_motive t = Some k)"
        using sm unfolding ks by fastforce
    qed
    finally have eq: "gt ! i = int (length (filter (\<lambda>t. CR_PARTIC_NAME t = Some p) corpus))" .
    have "p \<in> set names" using i by (simp add: p_def)
    then obtain t where "t \<in> set corpus" "CR_PARTIC_NAME t = Some p"
      unfolding ns by auto
    then have "filter (\<lambda>t. CR_PARTIC_NAME t = Some p) corpus \<noteq> []"
      by (auto simp: filter_empty_conv)
    then have "1 \<le> int (length (filter (\<lambda>t. CR_PARTIC_NAME t = Some p) corpus))"
      by (cases "filter (\<lambda>t. CR_PARTIC_NAME t = Some p) corpus") auto
    with eq show ?thesis by (simp add: p_def)
  qed
  show ?thesis
    by (intro exI conjI) (rule hd, rule gi, rule len, use row in blast)
qed

theorem creditor_grand_total_positive_witness:
  "merge_files ex_fs ''/in'' ex_files = Inr ex_corpus
   \<and> extract_creditor_details ex_corpus =
     Inr [(''PARTICIPANT_NAME'', ObjectCol [Str ''Y'', Str ''Z'']),
          (''Received Posted'', NumericCol [Some 3, Some 0]),
          (''Declined Lack of Funds'', NumericCol [Some 0, Some 1]),
          (''Grand Total'', NumericCol [Some 3, Some 1]),
          (''Success'', ObjectCol [Str ''100.00%'', Str ''0.00%''])]
   \<and> (\<exists>names gt.
         hd [(''PARTICIPANT_NAME'', ObjectCol [Str ''Y'', Str ''Z'']),
          (''Received Posted'', NumericCol [Some 3, Some 0]),
          (''Declined Lack of Funds'', NumericCol [Some 0, Some 1]),
          (''Grand Total'', NumericCol [Some 3, Some 1]),
          (''Success'', ObjectCol [Str ''100.00%'', Str ''0.00%''])]
           = (''PARTICIPANT_NAME'', ObjectCol (map Str names))
         \<and> getitem [(''PARTICIPANT_NAME'', ObjectCol [Str ''Y'', Str ''Z'']),
          (''Received Posted'', NumericCol [Some 3, Some 0]),
          (''Declined Lack of Funds'', NumericCol [Some 0, Some 1]),
          (''Grand Total'', NumericCol [Some 3, Some 1]),
          (''Success'', ObjectCol [Str ''100.00%'', Str ''0.00%''])] ''Grand Total'' = [NumericCol (map Some gt)]
         \<and> length gt = length names
         \<and> (\<forall>i < length names.
               gt ! i = int (length (filter (\<lambda>t. CR_PARTIC_NAME t = Some (names ! i)) ex_corpus))
               \<and> 1 \<le> gt ! i))"
  by (intro conjI) (rule ex_merge, rule ex_creditor, rule creditor_grand_total_positive [OF ex_merge ex_creditor])

section \<open>The success percentage\<close>

lemma decimal_of_snoc: "decimal_of (s @ [c]) = 10 * decimal_of s + (of_char c - 48)"
  by (simp add: decimal_of_def)

lemma digit_char_nat:
  fixes k :: nat
  assumes "k < 10"
  shows "is_digit (char_of (48 + k))" and "(of_char (char_of (48 + k)) :: nat) - 48 = k"
  using assms by (simp_all add: is_digit_def)

lemma digit_char_int:
  fixes k :: int
  assumes "0 \<le> k" and "k < 10"
  shows "is_digit (char_of (48 + k))" and "(of_char (char_of (48 + k)) :: nat) - 48 = nat k"
proof -
  have "char_of (48 + k) = char_of (48 + nat k)"
    using assms by (simp add: char_of_def) (metis add.commute int_nat_eq of_nat_numeral of_nat_add bit_of_nat_iff_bit)
  with digit_char_nat [of "nat k"] assms
  show "is_digit (char_of (48 + k))" and "(of_char (char_of (48 + k)) :: nat) - 48 = nat k"
    by auto
qed

lemma digits_nonempty: "digits n \<noteq> []"
  by (subst digits.simps) simp

lemma digits_are_digits: "list_all is_digit (digits n)"
proof (induction n rule: digits.induct)
  case (1 n)
  show ?case
  proof (cases "n < 10")
    case True
    then show ?thesis
      by (subst digits.simps) (simp add: digit_char_nat)
  next
    case False
    have "n mod 10 < 10" by simp
    from digit_char_nat(1) [OF this] "1" [OF False] False show ?thesis
      by (subst digits.simps) simp
  qed
qed

lemma decimal_of_digits: "decimal_of (digits n) = n"
proof (induction n rule: digits.induct)
  case (1 n)
  show ?case
  proof (cases "n < 10")
    case True
    then show ?thesis
      by (subst digits.simps) (simp add: decimal_of_def digit_char_nat del: of_char_of)
  next
    case False
    have m: "n mod 10 < 10" by simp
    have "decimal_of (digits (n div 10) @ [char_of (48 + n mod 10)]) = 10 * (n div 10) + n mod 10"
      unfolding decimal_of_snoc using "1" [OF False] digit_char_nat(2) [OF m] by simp
    with False show ?thesis
      by (subst digits.simps) simp
  qed
qed

lemma digits_leading: "digits n = ''0'' \<or> hd (digits n) \<noteq> CHR ''0''"
proof (induction n rule: digits.induct)
  case (1 n)
  show ?case
  proof (cases "n < 10")
    case small: True
    show ?thesis
    proof (cases "n = 0")
      case True
      have "digits 0 = ''0''" by code_simp
      with True show ?thesis by simp
    next
      case False
      have "char_of (48 + n) \<noteq> CHR ''0''"
      proof
        assume "char_of (48 + n) = CHR ''0''"
        with digit_char_nat(2) [OF small] have "n = 0" by simp
        with False show False by simp
      qed
      with small show ?thesis by (subst digits.simps) simp
    qed
  next
    case False
    have "digits (n div 10) \<noteq> ''0''"
    proof
      assume "digits (n div 10) = ''0''"
      then have "decimal_of (digits (n div 10)) = decimal_of ''0''" by simp
      then have "n div 10 = 0" unfolding decimal_of_digits by (simp add: decimal_of_def)
      with False show False by simp
    qed
    with "1" [OF False] have "hd (digits (n div 10)) \<noteq> CHR ''0''" by simp
    with digits_nonempty [of "n div 10"] False show ?thesis
      by (subst digits.simps) simp
  qed
qed

lemma round_half_even_close: "2 * \<bar>of_int (round_half_even x) - x\<bar> \<le> (1 :: rat)"
proof -
  define f where "f = \<lfloor>x\<rfloor>"
  define r where "r = x - of_int f"
  have r0: "0 \<le> r" and r1: "r < 1"
    unfolding r_def f_def by linarith+
  have x: "x = of_int f + r" by (simp add: r_def)
  show ?thesis
    unfolding round_half_even_def Let_def f_def [symmetric] r_def [symmetric]
    using r0 r1 by (auto simp: x)
qed

lemma round_half_even_nonneg: "0 \<le> x \<Longrightarrow> 0 \<le> round_half_even x"
  unfolding round_half_even_def Let_def by auto

lemma round_half_even_tie:
  assumes "2 * \<bar>of_int (round_half_even x) - x\<bar> = (1 :: rat)"
  shows "even (round_half_even x)"
proof -
  define f where "f = \<lfloor>x\<rfloor>"
  define r where "r = x - of_int f"
  have r0: "0 \<le> r" and r1: "r < 1"
    unfolding r_def f_def by linarith+
  have x: "x = of_int f + r" by (simp add: r_def)
  from assms show ?thesis
    unfolding round_half_even_def Let_def f_def [symmetric] r_def [symmetric]
    using r0 r1 by (auto simp: x split: if_splits)
qed

lemma format_2f_shape:
  assumes "0 \<le> x"
  shows "\<exists>ds d1 d2. format_2f x = ds @ ''.'' @ [d1, d2] \<and> ds \<noteq> []
           \<and> (ds = ''0'' \<or> hd ds \<noteq> CHR ''0'') \<and> list_all is_digit (ds @ [d1, d2])
           \<and> int (decimal_of (ds @ [d1, d2])) = round_half_even (x * 100)"
proof -
  define n where "n = round_half_even (\<bar>x\<bar> * 100)"
  define ds where "ds = digits (nat (n div 100))"
  define d1 where "d1 = char_of (48 + n mod 100 div 10)"
  define d2 where "d2 = char_of (48 + n mod 10)"
  have n0: "0 \<le> n" unfolding n_def by (rule round_half_even_nonneg) simp
  have a1: "0 \<le> n mod 100 div 10" "n mod 100 div 10 < 10" by auto
  have a2: "0 \<le> n mod 10" "n mod 10 < 10" by auto
  have fmt: "format_2f x = ds @ ''.'' @ [d1, d2]"
    using assms by (simp add: format_2f_def Let_def n_def ds_def d1_def d2_def)
  have dig: "list_all is_digit (ds @ [d1, d2])"
    using digits_are_digits [of "nat (n div 100)"] digit_char_int(1) [OF a1] digit_char_int(1) [OF a2]
    by (simp add: ds_def d1_def d2_def)
  have s0: "decimal_of ds = nat (n div 100)"
    unfolding ds_def by (rule decimal_of_digits)
  have s1: "decimal_of (ds @ [d1]) = 10 * nat (n div 100) + nat (n mod 100 div 10)"
    unfolding decimal_of_snoc s0 d1_def by (simp only: digit_char_int(2) [OF a1])
  have s2: "decimal_of ((ds @ [d1]) @ [d2]) = 10 * (10 * nat (n div 100) + nat (n mod 100 div 10)) + nat (n mod 10)"
    unfolding decimal_of_snoc [of "ds @ [d1]"] s1 d2_def by (simp only: digit_char_int(2) [OF a2])
  have app: "(ds @ [d1]) @ [d2] = ds @ [d1, d2]" by simp
  have ar: "10 * (10 * nat (n div 100) + nat (n mod 100 div 10)) + nat (n mod 10) = nat n"
  proof -
    have "int (10 * (10 * nat (n div 100) + nat (n mod 100 div 10)) + nat (n mod 10)) =
          10 * (10 * (n div 100) + n mod 100 div 10) + n mod 10"
      using n0 by (simp add: pos_imp_zdiv_nonneg_iff)
    also have "\<dots> = n"
    proof -
      define q where "q = n div 100"
      define r where "r = n mod 100"
      define a where "a = r div 10"
      define b where "b = n mod 10"
      have e1: "n = 100 * q + r" by (simp add: q_def r_def)
      have e3: "r mod 10 = b" by (simp add: r_def b_def mod_mod_cancel)
      have e2: "r = 10 * a + b" unfolding a_def e3 [symmetric] by simp
      have "10 * (10 * q + a) + b = n" using e1 e2 by simp
      then show ?thesis by (simp add: q_def r_def a_def b_def)
    qed
    finally show ?thesis using n0 by linarith
  qed
  have dec: "decimal_of (ds @ [d1, d2]) = nat n"
    using s2 unfolding app ar .
  have num: "int (decimal_of (ds @ [d1, d2])) = round_half_even (x * 100)"
    using assms n0 by (simp add: dec n_def)
  from fmt dig num digits_nonempty [of "nat (n div 100)"] digits_leading [of "nat (n div 100)"]
  show ?thesis
    unfolding ds_def by blast
qed

lemma pow2_pos: "0 < pow2 e"
  by (simp add: pow2_def)

lemma to_double_nonneg: "0 \<le> x \<Longrightarrow> 0 \<le> to_double x"
proof -
  assume x: "0 \<le> x"
  define u where "u = pow2 (ilog2 \<bar>x\<bar> - 52)"
  have u: "0 < u" unfolding u_def by (rule pow2_pos)
  then have "0 \<le> x / u" using x by simp
  then have "0 \<le> round_half_even (x / u)" by (rule round_half_even_nonneg)
  then have "0 \<le> (of_int (round_half_even (x / u)) :: rat) * u" using u by simp
  then show ?thesis
    by (simp add: to_double_def Let_def u_def)
qed

lemma pow2_powi: "pow2 e = 2 powi e"
  by (simp add: pow2_def power_int_def power_one_over [symmetric] inverse_eq_divide)

lemma pow2_diff: "pow2 (a - b) = pow2 a / pow2 b"
  by (simp add: pow2_powi power_int_diff)

lemma ilog2_le:
  assumes "0 < x"
  shows "pow2 (ilog2 x) \<le> x"
proof -
  obtain a b where q: "quotient_of x = (a, b)" by (cases "quotient_of x")
  have b: "0 < b" using q by (rule quotient_of_denom_pos)
  have x: "x = of_int a / of_int b" using q by (rule quotient_of_div)
  have a: "0 < a" using assms b unfolding x by (simp add: zero_less_divide_iff)
  define e where "e = bitlen a - bitlen b"
  show ?thesis
  proof (cases "pow2 e \<le> x")
    case True
    then show ?thesis by (simp add: ilog2_def q e_def)
  next
    case False
    have "a < 2 ^ nat (bitlen a)" using bitlen_bounds [OF a] by simp
    with a have "bitlen a \<noteq> 0" by (intro notI) simp
    with bitlen_nonneg [of a] have la: "0 \<le> bitlen a - 1" by simp
    have lb: "0 \<le> bitlen b" by (rule bitlen_nonneg)
    have "2 ^ nat (bitlen a - 1) \<le> a" using bitlen_bounds [OF a] by simp
    then have n1: "(2 ^ nat (bitlen a - 1) :: rat) \<le> of_int a"
      by (metis of_int_le_iff of_int_numeral of_int_power)
    have "b < 2 ^ nat (bitlen b)" using bitlen_bounds [OF b] by simp
    then have n2: "(of_int b :: rat) \<le> 2 ^ nat (bitlen b)"
      by (metis less_imp_le of_int_le_iff of_int_numeral of_int_power)
    have "pow2 (e - 1) = pow2 (bitlen a - 1) / pow2 (bitlen b)"
      unfolding e_def pow2_diff [symmetric] by (simp add: algebra_simps)
    also have "\<dots> = 2 ^ nat (bitlen a - 1) / 2 ^ nat (bitlen b)"
      using la lb by (simp add: pow2_def)
    also have "\<dots> \<le> of_int a / of_int b"
      using n1 n2 a b by (intro frac_le) simp_all
    finally have "pow2 (e - 1) \<le> x" unfolding x .
    with False show ?thesis by (simp add: ilog2_def q e_def)
  qed
qed

lemma to_double_rel: "\<bar>to_double x - x\<bar> \<le> \<bar>x\<bar> / 2 ^ 53"
proof (cases "x = 0")
  case True
  then show ?thesis by (simp add: to_double_def)
next
  case False
  define u where "u = pow2 (ilog2 \<bar>x\<bar> - 52)"
  define n where "n = round_half_even (x / u)"
  have u0: "0 < u" unfolding u_def by (rule pow2_pos)
  have "u = pow2 (ilog2 \<bar>x\<bar>) / 2 ^ 52"
    unfolding u_def pow2_diff by (simp add: pow2_def)
  also have "\<dots> \<le> \<bar>x\<bar> / 2 ^ 52"
    using ilog2_le [of "\<bar>x\<bar>"] False by (simp add: divide_right_mono)
  finally have ub: "u \<le> \<bar>x\<bar> / 2 ^ 52" .
  have td: "to_double x = of_int n * u"
    using False by (simp add: to_double_def Let_def u_def n_def)
  have "of_int n * u - x = (of_int n - x / u) * u"
    using u0 by (simp add: algebra_simps)
  then have "\<bar>of_int n * u - x\<bar> = \<bar>of_int n - x / u\<bar> * u"
    using u0 by (simp add: abs_mult)
  also have "\<dots> \<le> (1 / 2) * u"
    using round_half_even_close [of "x / u"] u0 unfolding n_def
    by (intro mult_right_mono) simp_all
  also have "\<dots> \<le> (1 / 2) * (\<bar>x\<bar> / 2 ^ 52)"
    using ub by simp
  finally show ?thesis unfolding td by simp
qed

lemma to_double_bounds:
  assumes "0 \<le> x"
  shows "(1 - 1 / 2 ^ 53) * x \<le> to_double x" and "to_double x \<le> (1 + 1 / 2 ^ 53) * x"
proof -
  define d where "d = x / 2 ^ 53"
  have "\<bar>to_double x - x\<bar> \<le> d"
    using to_double_rel [of x] assms by (simp add: d_def)
  then have b: "x - d \<le> to_double x" "to_double x \<le> x + d" by linarith+
  have "(1 - 1 / 2 ^ 53) * x = x - d" "(1 + 1 / 2 ^ 53) * x = x + d"
    by (simp_all add: d_def algebra_simps)
  with b show "(1 - 1 / 2 ^ 53) * x \<le> to_double x" and "to_double x \<le> (1 + 1 / 2 ^ 53) * x"
    by simp_all
qed

lemma success_value_nonneg: "0 \<le> p \<Longrightarrow> 0 < g \<Longrightarrow> 0 \<le> success_value p g"
proof -
  assume p: "0 \<le> p" and g: "0 < g"
  have a: "0 \<le> to_double (of_int p)" using p by (intro to_double_nonneg) simp
  have b: "0 \<le> to_double (of_int g)" using g by (intro to_double_nonneg) simp
  have "0 \<le> to_double (of_int p) / to_double (of_int g)" using a b by simp
  then have "0 \<le> fdiv (to_double (of_int p)) (to_double (of_int g))"
    unfolding fdiv_def by (rule to_double_nonneg)
  then have "0 \<le> fdiv (to_double (of_int p)) (to_double (of_int g)) * 100" by simp
  then show ?thesis
    unfolding success_value_def fmul_def by (rule to_double_nonneg)
qed

lemma success_value_exact:
  assumes p0: "0 \<le> p" and pg: "p \<le> g" and g0: "0 < g"
  shows "\<bar>success_value p g - 100 * of_int p / of_int g\<bar> \<le> 1 / 10 ^ 13"
proof -
  define lo :: rat where "lo = 1 - 1 / 2 ^ 53"
  define hi :: rat where "hi = 1 + 1 / 2 ^ 53"
  define P :: rat where "P = of_int p"
  define G :: rat where "G = of_int g"
  define t where "t = P / G"
  define a where "a = to_double P"
  define b where "b = to_double G"
  define d where "d = a / b"
  define q where "q = to_double d"
  define r where "r = to_double (q * 100)"
  have lo0: "0 < lo" and hi0: "0 < hi" and lohi: "lo \<le> hi"
    by (simp_all add: lo_def hi_def)
  have P0: "0 \<le> P" and G0: "0 < G" and PG: "P \<le> G"
    using p0 pg g0 by (simp_all add: P_def G_def)
  have t0: "0 \<le> t" and t1: "t \<le> 1"
    using P0 G0 PG by (simp_all add: t_def)
  have a_lo: "lo * P \<le> a" and a_hi: "a \<le> hi * P"
    unfolding a_def lo_def hi_def using to_double_bounds [OF P0] by simp_all
  have b_lo: "lo * G \<le> b" and b_hi: "b \<le> hi * G"
    unfolding b_def lo_def hi_def using to_double_bounds [of G] G0 by simp_all
  have a0: "0 \<le> a" unfolding a_def using P0 by (rule to_double_nonneg)
  have loG: "0 < lo * G" using lo0 G0 by simp
  with b_lo have b0: "0 < b" by linarith
  have d0: "0 \<le> d" unfolding d_def using a0 b0 by simp
  have hiP: "0 \<le> hi * P" using hi0 P0 by simp
  have "d \<le> (hi * P) / (lo * G)"
    unfolding d_def using hiP a_hi loG b_lo by (rule frac_le)
  then have d_hi: "d \<le> (hi / lo) * t" by (simp add: t_def)
  have "(lo * P) / (hi * G) \<le> d"
    unfolding d_def using a0 a_lo b0 b_hi by (rule frac_le)
  then have d_lo: "(lo / hi) * t \<le> d" by (simp add: t_def)
  have q_lo: "lo * d \<le> q" and q_hi: "q \<le> hi * d"
    unfolding q_def lo_def hi_def using to_double_bounds [OF d0] by simp_all
  have q0: "0 \<le> q" unfolding q_def using d0 by (rule to_double_nonneg)
  then have q100: "0 \<le> q * 100" by simp
  have r_lo: "lo * (q * 100) \<le> r" and r_hi: "r \<le> hi * (q * 100)"
    unfolding r_def lo_def hi_def using to_double_bounds [OF q100] by simp_all
  have "hi * d \<le> hi * ((hi / lo) * t)"
    using d_hi hi0 by (intro mult_left_mono) simp_all
  with q_hi have q_up: "q \<le> hi * ((hi / lo) * t)" by linarith
  then have "q * 100 \<le> (hi * ((hi / lo) * t)) * 100" by (rule mult_right_mono) simp
  then have "hi * (q * 100) \<le> hi * ((hi * ((hi / lo) * t)) * 100)"
    using hi0 by (intro mult_left_mono) simp_all
  with r_hi have "r \<le> hi * ((hi * ((hi / lo) * t)) * 100)" by linarith
  also have "\<dots> = (100 * (hi * hi * hi / lo)) * t" by simp
  finally have up: "r \<le> (100 * (hi * hi * hi / lo)) * t" .
  have "lo * ((lo / hi) * t) \<le> lo * d"
    using d_lo lo0 by (intro mult_left_mono) simp_all
  with q_lo have q_dn: "lo * ((lo / hi) * t) \<le> q" by linarith
  then have "(lo * ((lo / hi) * t)) * 100 \<le> q * 100" by (rule mult_right_mono) simp
  then have "lo * ((lo * ((lo / hi) * t)) * 100) \<le> lo * (q * 100)"
    using lo0 by (intro mult_left_mono) simp_all
  with r_lo have dn0: "lo * ((lo * ((lo / hi) * t)) * 100) \<le> r" by linarith
  have eqL: "lo * ((lo * ((lo / hi) * t)) * 100) = (100 * (lo * lo * lo / hi)) * t" by simp
  have dn: "(100 * (lo * lo * lo / hi)) * t \<le> r" using dn0 unfolding eqL .
  define cH where "cH = 100 * (hi * hi * hi / lo) - 100"
  define cL where "cL = 100 - 100 * (lo * lo * lo / hi)"
  have cH: "0 \<le> cH" "cH \<le> 1 / 10 ^ 13"
    by (simp_all add: cH_def hi_def lo_def)
  have cL: "0 \<le> cL" "cL \<le> 1 / 10 ^ 13"
    by (simp_all add: cL_def hi_def lo_def)
  have "r - 100 * t \<le> cH * t" using up by (simp add: cH_def algebra_simps)
  also have "\<dots> \<le> cH * 1" using cH(1) t1 by (intro mult_left_mono)
  finally have u1: "r - 100 * t \<le> 1 / 10 ^ 13" using cH(2) by simp
  have "100 * t - r \<le> cL * t" using dn by (simp add: cL_def algebra_simps)
  also have "\<dots> \<le> cL * 1" using cL(1) t1 by (intro mult_left_mono)
  finally have u2: "100 * t - r \<le> 1 / 10 ^ 13" using cL(2) by simp
  have sv: "success_value p g = r"
    by (simp add: success_value_def fmul_def fdiv_def r_def q_def d_def a_def b_def P_def G_def)
  have ex: "100 * of_int p / of_int g = 100 * t"
    by (simp add: t_def P_def G_def)
  from u1 u2 have "\<bar>r - 100 * t\<bar> \<le> 1 / 10 ^ 13" by linarith
  then show ?thesis unfolding sv ex .
qed

lemma num0_pivot_cell_nonneg: "0 \<le> num0 (pivot_cell G ck ik vs p k)"
  by (simp add: num0_def pivot_cell_def Let_def)

lemma status_columns_nonneg:
  "(l, ns) \<in> set (status_columns df) \<Longrightarrow> n \<in> set ns \<Longrightarrow> 0 \<le> n"
  by (auto simp: status_columns_def creditor_pivot_def pivot_table_shape num0_pivot_cell_nonneg)

lemma sum_list_nonneg_rows:
  assumes "\<forall>(l, ns) \<in> set rest. i < length ns \<and> (\<forall>n \<in> set ns. (0 :: int) \<le> n)"
  shows "0 \<le> (\<Sum>(l, ns) \<leftarrow> rest. ns ! i)"
  using assms by (induction rest) (auto intro!: add_nonneg_nonneg)

text \<open>
  C3. In every creditor aggregate, the \<open>Success\<close> cell of a row whose \<open>Grand Total\<close>
  is not 0 is a text of digits without a leading zero, a point, two digits and \<open>%\<close>.
  The number it prints, counted in hundredths, is within a half of
  \<open>Posted / Grand Total * 100\<close> in hundredths, up to the rounding of the three \<open>float64\<close>
  operations: the product the code computes differs from the exact quotient times 100 by
  at most \<open>10\<^sup>-\<^sup>1\<^sup>3\<close>, the text is within half a hundredth of that product, and when the
  product lies halfway between two hundredths the even one is printed.
\<close>

theorem creditor_success_cell:
  assumes "extract_creditor_details df = Inr out"
  shows "\<exists>names posted rest gt succ.
           out = (''PARTICIPANT_NAME'', ObjectCol (map Str names)) #
                 (''Received Posted'', NumericCol (map Some posted)) #
                 map (\<lambda>(l, ns). (l, NumericCol (map Some ns))) rest @
                 [(''Grand Total'', NumericCol (map Some gt)), (''Success'', ObjectCol (map Str succ))]
           \<and> length posted = length names \<and> length gt = length names \<and> length succ = length names
           \<and> (\<forall>i < length names. gt ! i \<noteq> 0 \<longrightarrow>
                 (\<exists>ds d1 d2.
                    succ ! i = ds @ ''.'' @ [d1, d2] @ ''%''
                    \<and> ds \<noteq> [] \<and> (ds = ''0'' \<or> hd ds \<noteq> CHR ''0'')
                    \<and> list_all is_digit (ds @ [d1, d2])
                    \<and> 2 * \<bar>of_nat (decimal_of (ds @ [d1, d2]))
                             - 10000 * of_int (posted ! i) / of_int (gt ! i)\<bar> \<le> (1 + 1 / 10 ^ 10 :: rat)
                    \<and> \<bar>success_value (posted ! i) (gt ! i)
                         - 100 * of_int (posted ! i) / of_int (gt ! i)\<bar> \<le> 1 / 10 ^ 13
                    \<and> 2 * \<bar>of_nat (decimal_of (ds @ [d1, d2]))
                             - 100 * success_value (posted ! i) (gt ! i)\<bar> \<le> (1 :: rat)
                    \<and> (2 * \<bar>of_nat (decimal_of (ds @ [d1, d2]))
                              - 100 * success_value (posted ! i) (gt ! i)\<bar> = (1 :: rat)
                        \<longrightarrow> even (decimal_of (ds @ [d1, d2])))))"
proof -
  from creditor_frame_of_result [OF assms] obtain posted where
    h: "filter (\<lambda>(l, ns). l = ''Posted'') (status_columns df) = [(''Posted'', posted)]" and
    o: "out = creditor_frame (fst (creditor_pivot df)) posted
             (filter (\<lambda>(l, ns). l \<noteq> ''Posted'') (status_columns df))"
    by blast
  define names where "names = fst (creditor_pivot df)"
  define rest0 where "rest0 = filter (\<lambda>(l, ns). l \<noteq> ''Posted'') (status_columns df)"
  define rest where "rest = map (\<lambda>(l, ns). (if l = ''CR_PARTIC_NAME'' then ''PARTICIPANT_NAME'' else l, ns)) rest0"
  define gt where "gt = map (\<lambda>i. row_total posted rest0 i) [0..<length names]"
  define succ where "succ = map (\<lambda>i. success_text (Some (posted ! i)) (Some (row_total posted rest0 i)))
                   [0..<length names]"
  have shape: "out = (''PARTICIPANT_NAME'', ObjectCol (map Str names)) #
                 (''Received Posted'', NumericCol (map Some posted)) #
                 map (\<lambda>(l, ns). (l, NumericCol (map Some ns))) rest @
                 [(''Grand Total'', NumericCol (map Some gt)), (''Success'', ObjectCol (map Str succ))]"
    unfolding o creditor_frame_def
    by (simp add: names_def rest0_def rest_def gt_def succ_def comp_def case_prod_unfold)
  from h have "(''Posted'', posted) \<in> set (filter (\<lambda>(l, ns). l = ''Posted'') (status_columns df))"
    by simp
  then have mem: "(''Posted'', posted) \<in> set (status_columns df)" by simp
  have lp: "length posted = length names"
    using status_columns_length [OF mem] by (simp add: names_def)
  have lg: "length gt = length names" by (simp add: gt_def)
  have ls: "length succ = length names" by (simp add: succ_def)
  have row: "\<exists>ds d1 d2.
                succ ! i = ds @ ''.'' @ [d1, d2] @ ''%''
                \<and> ds \<noteq> [] \<and> (ds = ''0'' \<or> hd ds \<noteq> CHR ''0'')
                \<and> list_all is_digit (ds @ [d1, d2])
                \<and> 2 * \<bar>of_nat (decimal_of (ds @ [d1, d2]))
                         - 10000 * of_int (posted ! i) / of_int (gt ! i)\<bar> \<le> (1 + 1 / 10 ^ 10 :: rat)
                \<and> \<bar>success_value (posted ! i) (gt ! i)
                     - 100 * of_int (posted ! i) / of_int (gt ! i)\<bar> \<le> 1 / 10 ^ 13
                \<and> 2 * \<bar>of_nat (decimal_of (ds @ [d1, d2]))
                         - 100 * success_value (posted ! i) (gt ! i)\<bar> \<le> (1 :: rat)
                \<and> (2 * \<bar>of_nat (decimal_of (ds @ [d1, d2]))
                          - 100 * success_value (posted ! i) (gt ! i)\<bar> = (1 :: rat)
                    \<longrightarrow> even (decimal_of (ds @ [d1, d2])))"
    if i: "i < length names" and nz: "gt ! i \<noteq> 0" for i
  proof -
    define sv where "sv = success_value (posted ! i) (gt ! i)"
    define ex :: rat where "ex = 100 * of_int (posted ! i) / of_int (gt ! i)"
    have gi: "gt ! i = row_total posted rest0 i" using i by (simp add: gt_def)
    have p0: "0 \<le> posted ! i"
      using status_columns_nonneg [OF mem, of "posted ! i"] i lp by simp
    have "\<forall>(l, ns) \<in> set rest0. i < length ns \<and> (\<forall>n \<in> set ns. 0 \<le> n)"
      using status_columns_length [of _ _ df] status_columns_nonneg [of _ _ df] i
      by (auto simp: rest0_def names_def)
    from sum_list_nonneg_rows [OF this] have pg: "posted ! i \<le> gt ! i"
      by (simp add: gi row_total_def)
    with p0 nz have g0: "0 < gt ! i" by simp
    have st: "succ ! i = format_2f sv @ ''%''"
      using i g0 by (simp add: succ_def gi [symmetric] success_text_def sv_def)
    have sv0: "0 \<le> sv" unfolding sv_def by (rule success_value_nonneg [OF p0 g0])
    have close: "\<bar>sv - ex\<bar> \<le> 1 / 10 ^ 13"
      unfolding sv_def ex_def by (rule success_value_exact [OF p0 pg g0])
    from format_2f_shape [OF sv0] obtain ds d1 d2 where
      f: "format_2f sv = ds @ ''.'' @ [d1, d2]" and
      ne: "ds \<noteq> []" and lz: "ds = ''0'' \<or> hd ds \<noteq> CHR ''0''" and
      dg: "list_all is_digit (ds @ [d1, d2])" and
      nm: "int (decimal_of (ds @ [d1, d2])) = round_half_even (sv * 100)"
      by blast
    define N :: rat where "N = of_nat (decimal_of (ds @ [d1, d2]))"
    have N: "N = of_int (round_half_even (sv * 100))"
      unfolding N_def nm [symmetric] by simp
    have half: "2 * \<bar>N - 100 * sv\<bar> \<le> 1"
      unfolding N using round_half_even_close [of "sv * 100"] by (simp add: mult.commute)
    have tie: "even (decimal_of (ds @ [d1, d2]))" if "2 * \<bar>N - 100 * sv\<bar> = 1"
    proof -
      from that have "2 * \<bar>of_int (round_half_even (sv * 100)) - sv * 100\<bar> = (1 :: rat)"
        unfolding N by (simp add: mult.commute)
      then have "even (round_half_even (sv * 100))" by (rule round_half_even_tie)
      then show ?thesis unfolding nm [symmetric] by simp
    qed
    have e100: "10000 * of_int (posted ! i) / of_int (gt ! i) = 100 * ex"
      by (simp add: ex_def)
    have e13: "(1 / 10 ^ 13 :: rat) = 1 / 10000000000000" by simp
    have e10: "(1 / 10 ^ 10 :: rat) = 1 / 10000000000" by simp
    from close have c2: "\<bar>100 * sv - 100 * ex\<bar> \<le> 1 / 100000000000"
      unfolding e13 by linarith
    have tri: "\<bar>N - 100 * ex\<bar> \<le> \<bar>N - 100 * sv\<bar> + \<bar>100 * sv - 100 * ex\<bar>"
      using abs_triangle_ineq [of "N - 100 * sv" "100 * sv - 100 * ex"] by simp
    define ea where "ea = \<bar>N - 100 * sv\<bar>"
    define eb where "eb = \<bar>100 * sv - 100 * ex\<bar>"
    define ec where "ec = \<bar>N - 100 * ex\<bar>"
    have "2 * ea \<le> 1" "eb \<le> 1 / 100000000000" "ec \<le> ea + eb"
      using half c2 tri by (simp_all add: ea_def eb_def ec_def)
    then have "2 * ec \<le> 1 + 1 / 10000000000" by linarith
    then have exact: "2 * \<bar>N - 100 * ex\<bar> \<le> 1 + 1 / 10000000000"
      unfolding ec_def .
    have r1: "succ ! i = ds @ ''.'' @ [d1, d2] @ ''%''"
      using st f by simp
    have r2: "2 * \<bar>of_nat (decimal_of (ds @ [d1, d2]))
                   - 10000 * of_int (posted ! i) / of_int (gt ! i)\<bar> \<le> (1 + 1 / 10 ^ 10 :: rat)"
      using exact unfolding e100 [symmetric] N_def e10 .
    have r3: "\<bar>success_value (posted ! i) (gt ! i)
                - 100 * of_int (posted ! i) / of_int (gt ! i)\<bar> \<le> 1 / 10 ^ 13"
      using close unfolding sv_def ex_def .
    have r4: "2 * \<bar>of_nat (decimal_of (ds @ [d1, d2]))
                   - 100 * success_value (posted ! i) (gt ! i)\<bar> \<le> (1 :: rat)"
      using half unfolding N_def sv_def .
    have r5: "2 * \<bar>of_nat (decimal_of (ds @ [d1, d2]))
                   - 100 * success_value (posted ! i) (gt ! i)\<bar> = (1 :: rat)
              \<longrightarrow> even (decimal_of (ds @ [d1, d2]))"
      using tie unfolding N_def sv_def by blast
    from r1 ne lz dg r2 r3 r4 r5 show ?thesis by blast
  qed
  show ?thesis
    by (intro exI conjI) (rule shape, rule lp, rule lg, rule ls, use row in blast)
qed

lemma ex_pivot_mixed:
  "creditor_pivot ex_corpus_mixed =
     ([''W'', ''Y''],
      [((''Declined'', ''Lack of funds.AM04''), [None, Some 1]),
       ((''Declined'', ex_motive_quoted), [Some 1, None]),
       ((''Posted'', []), [Some 1, Some 2])])"
  by code_simp

lemma ex_name_quoted:
  "new_col_name (''Declined'', ex_motive_quoted) = ''Declined Regulatory requirements are insufficient''"
  by code_simp

lemma ex_status_columns_mixed:
  "status_columns ex_corpus_mixed =
     [(''Declined Lack of Funds'', [0, 1]),
      (''Declined Regulatory requirements are insufficient'', [1, 0]),
      (''Posted'', [1, 2])]"
  by (simp add: status_columns_def ex_pivot_mixed ex_names ex_name_quoted num0_def)

lemma ex_success_mixed:
  "success_text (Some 1) (Some 2) = ''50.00%''"
  "success_text (Some 2) (Some 3) = ''66.67%''"
  by code_simp+

lemma ex_creditor_mixed:
  "extract_creditor_details ex_corpus_mixed =
     Inr [(''PARTICIPANT_NAME'', ObjectCol [Str ''W'', Str ''Y'']),
          (''Received Posted'', NumericCol [Some 1, Some 2]),
          (''Declined Lack of Funds'', NumericCol [Some 0, Some 1]),
          (''Declined Regulatory requirements are insufficient'', NumericCol [Some 1, Some 0]),
          (''Grand Total'', NumericCol [Some 2, Some 3]),
          (''Success'', ObjectCol [Str ''50.00%'', Str ''66.67%''])]"
  unfolding creditor_result
  by (simp add: ex_pivot_mixed ex_status_columns_mixed creditor_frame_def row_total_def
      ex_success_mixed upt_rec)

theorem creditor_success_cell_witness:
  "extract_creditor_details ex_corpus_mixed =
     Inr [(''PARTICIPANT_NAME'', ObjectCol [Str ''W'', Str ''Y'']),
          (''Received Posted'', NumericCol [Some 1, Some 2]),
          (''Declined Lack of Funds'', NumericCol [Some 0, Some 1]),
          (''Declined Regulatory requirements are insufficient'', NumericCol [Some 1, Some 0]),
          (''Grand Total'', NumericCol [Some 2, Some 3]),
          (''Success'', ObjectCol [Str ''50.00%'', Str ''66.67%''])]
   \<and> (\<exists>names posted rest gt succ.
         [(''PARTICIPANT_NAME'', ObjectCol [Str ''W'', Str ''Y'']),
          (''Received Posted'', NumericCol [Some 1, Some 2]),
          (''Declined Lack of Funds'', NumericCol [Some 0, Some 1]),
          (''Declined Regulatory requirements are insufficient'', NumericCol [Some 1, Some 0]),
          (''Grand Total'', NumericCol [Some 2, Some 3]),
          (''Success'', ObjectCol [Str ''50.00%'', Str ''66.67%''])]
         = (''PARTICIPANT_NAME'', ObjectCol (map Str names)) #
           (''Received Posted'', NumericCol (map Some posted)) #
           map (\<lambda>(l, ns). (l, NumericCol (map Some ns))) rest @
           [(''Grand Total'', NumericCol (map Some gt)), (''Success'', ObjectCol (map Str succ))]
         \<and> length posted = length names \<and> length gt = length names \<and> length succ = length names
         \<and> (\<forall>i < length names. gt ! i \<noteq> 0 \<longrightarrow>
               (\<exists>ds d1 d2.
                  succ ! i = ds @ ''.'' @ [d1, d2] @ ''%''
                  \<and> ds \<noteq> [] \<and> (ds = ''0'' \<or> hd ds \<noteq> CHR ''0'')
                  \<and> list_all is_digit (ds @ [d1, d2])
                  \<and> 2 * \<bar>of_nat (decimal_of (ds @ [d1, d2]))
                           - 10000 * of_int (posted ! i) / of_int (gt ! i)\<bar> \<le> (1 + 1 / 10 ^ 10 :: rat)
                  \<and> \<bar>success_value (posted ! i) (gt ! i)
                       - 100 * of_int (posted ! i) / of_int (gt ! i)\<bar> \<le> 1 / 10 ^ 13
                  \<and> 2 * \<bar>of_nat (decimal_of (ds @ [d1, d2]))
                           - 100 * success_value (posted ! i) (gt ! i)\<bar> \<le> (1 :: rat)
                  \<and> (2 * \<bar>of_nat (decimal_of (ds @ [d1, d2]))
                            - 100 * success_value (posted ! i) (gt ! i)\<bar> = (1 :: rat)
                      \<longrightarrow> even (decimal_of (ds @ [d1, d2]))))))"
  by (rule conjI [OF ex_creditor_mixed creditor_success_cell [OF ex_creditor_mixed]])

end
